theory Spec2Isabelle
  imports Main
begin

section \<open>Data model of \<^verbatim>\<open>src/utils/textMapping.ts\<close>\<close>

text \<open>
  A JavaScript string is a sequence of UTF-16 code units; the code only compares,
  slices and indexes strings, so the code unit type is left as a parameter \<open>'c\<close>
  and a string is a \<open>'c list\<close>.  Indexing a string past its end gives
  \<^verbatim>\<open>undefined\<close>, which is \<open>None\<close> here; an in-range index gives the one-unit
  string at that place.
\<close>

definition charAt :: "'c list \<Rightarrow> nat \<Rightarrow> 'c list option" where
  "charAt s k = (if k < length s then Some [s ! k] else None)"

text \<open>\<^verbatim>\<open>s.substring(a, b)\<close> for \<open>a \<le> b\<close>, and \<^verbatim>\<open>s.substring(a)\<close>.\<close>

definition substring :: "'c list \<Rightarrow> nat \<Rightarrow> nat \<Rightarrow> 'c list" where
  "substring s a b = take (b - a) (drop a s)"

definition substringFrom :: "'c list \<Rightarrow> nat \<Rightarrow> 'c list" where
  "substringFrom s a = drop a s"

text \<open>
  \<^verbatim>\<open>interface CharacterMapping\<close>.  \<open>inputChar\<close> is read with \<^verbatim>\<open>inputText[k]\<close>
  and one of the reads is unguarded, so the field can hold \<^verbatim>\<open>undefined\<close>.
  The optional fields \<open>kanjiWord\<close> and \<open>readingVariations\<close> are \<open>None\<close> when absent.
\<close>

record 'c CharacterMapping =
  displayIndex :: nat
  inputIndex :: nat
  displayChar :: "'c list"
  inputChar :: "'c list option"
  isKanji :: bool
  kanjiWord :: "'c list option"
  readingVariations :: "'c list list option"

text \<open>\<^verbatim>\<open>interface TextMapping\<close>.\<close>

record 'c TextMapping =
  displayText :: "'c list"
  inputText :: "'c list"
  mappings :: "'c CharacterMapping list"
  totalInputLength :: nat

text \<open>
  The functions imported from \<^verbatim>\<open>./kanjiToKanaMapping\<close>: \<^verbatim>\<open>isKanji\<close>,
  \<^verbatim>\<open>getKanaReading\<close> (a string, or nothing) and \<^verbatim>\<open>hasKanaReading\<close>.  Their
  module is not part of the sources, so they are parameters of the model.
\<close>

record 'c ReadingLookup =
  isKanjiFn :: "'c list \<Rightarrow> bool"
  getKanaReading :: "'c list \<Rightarrow> 'c list option"
  hasKanaReading :: "'c list \<Rightarrow> bool"

text \<open>
  The result of \<^verbatim>\<open>validateJapaneseInput\<close> (imported from \<^verbatim>\<open>./japaneseInput\<close>), with
  the fields the code reads outside of its log lines.
\<close>

record 'c JapaneseValidation =
  jvIsValid :: bool
  jvIsComplete :: bool
  jvCanContinue :: bool
  nextPossibleChars :: "'c list list option"
  transformationPath :: "'c list list option"

text \<open>The object returned by \<^verbatim>\<open>validateInputAtPosition\<close>; an entry of
  \<open>possibleChars\<close> can be \<^verbatim>\<open>undefined\<close>.\<close>

record 'c ValidationResult =
  isValid :: bool
  isComplete :: bool
  canContinue :: bool
  possibleChars :: "'c list option list"

text \<open>The object returned by \<^verbatim>\<open>splitTextForDisplay\<close>.\<close>

record 'c DisplaySplit =
  completedPart :: "'c list"
  currentChar :: "'c list"
  remainingPart :: "'c list"

section \<open>\<^verbatim>\<open>createTextMapping\<close>\<close>

text \<open>A JavaScript string is truthy when it is present and not empty.\<close>

definition truthy :: "'c list option \<Rightarrow> bool" where
  "truthy r = (case r of None \<Rightarrow> False | Some s \<Rightarrow> s \<noteq> [])"

text \<open>
  The loop \<^verbatim>\<open>for (j = 0; j < n; j++) if (cur + j < inputText.length) mappings.push(...)\<close>
  that both kanji branches run: one entry per kana of the reading, as far as the input
  text reaches.
\<close>

definition kanaEntries ::
  "'c list \<Rightarrow> nat \<Rightarrow> 'c list \<Rightarrow> 'c list option \<Rightarrow> nat \<Rightarrow> nat \<Rightarrow> 'c CharacterMapping list" where
  "kanaEntries inp dIdx dChar word cur n =
     map (\<lambda>j. \<lparr>displayIndex = dIdx, inputIndex = cur + j, displayChar = dChar,
               inputChar = charAt inp (cur + j), isKanji = True, kanjiWord = word,
               readingVariations = None\<rparr>)
         (filter (\<lambda>j. cur + j < length inp) [0..<n])"

text \<open>
  The probe \<^verbatim>\<open>for (wordLength = ...; wordLength >= 2; wordLength--)\<close>: the first window
  length, counting down, whose substring has a truthy reading that the input text
  carries at the input cursor.  The loop leaves through \<^verbatim>\<open>break\<close> there, so the probe
  returns that length with the word and its reading.
\<close>

fun probeCompound ::
  "'c ReadingLookup \<Rightarrow> 'c list \<Rightarrow> 'c list \<Rightarrow> nat \<Rightarrow> nat \<Rightarrow> nat \<Rightarrow> (nat \<times> 'c list \<times> 'c list) option" where
  "probeCompound L disp inp dIdx iIdx wordLength =
     (if wordLength < 2 then None
      else
        (let potentialWord = substring disp dIdx (dIdx + wordLength);
             wordReading = getKanaReading L potentialWord
         in if truthy wordReading \<and>
               substring inp iIdx (iIdx + length (the wordReading)) = the wordReading
            then Some (wordLength, potentialWord, the wordReading)
            else probeCompound L disp inp dIdx iIdx (wordLength - 1)))"

declare probeCompound.simps [simp del]

text \<open>
  One round of \<^verbatim>\<open>for (i = 0; i < wordLength; i++)\<close> inside a matched compound: the
  state is the list of entries pushed so far and \<open>currentInputIndex\<close>.
\<close>

definition compoundStep ::
  "'c ReadingLookup \<Rightarrow> 'c list \<Rightarrow> 'c list \<Rightarrow> nat \<Rightarrow> nat \<Rightarrow> nat \<Rightarrow> 'c list \<Rightarrow> 'c list \<Rightarrow>
   'c CharacterMapping list \<times> nat \<Rightarrow> nat \<Rightarrow> 'c CharacterMapping list \<times> nat" where
  "compoundStep L disp inp dIdx iIdx wordLength potentialWord wordReading st i =
     (let (ms, cur) = st;
          currentDisplayChar = [disp ! (dIdx + i)]
      in if isKanjiFn L currentDisplayChar then
           (let singleCharReading = getKanaReading L currentDisplayChar;
                charReadingLength =
                  (if truthy singleCharReading then length (the singleCharReading)
                   else max 1 (length (substringFrom wordReading (cur - iIdx)) div (wordLength - i)))
            in (ms @ kanaEntries inp (dIdx + i) currentDisplayChar (Some potentialWord)
                       cur charReadingLength,
                cur + charReadingLength))
         else
           (ms @ [\<lparr>displayIndex = dIdx + i, inputIndex = cur,
                    displayChar = currentDisplayChar, inputChar = charAt inp cur,
                    isKanji = False, kanjiWord = Some potentialWord,
                    readingVariations = None\<rparr>],
            cur + 1))"

definition compoundLoop ::
  "'c ReadingLookup \<Rightarrow> 'c list \<Rightarrow> 'c list \<Rightarrow> nat \<Rightarrow> nat \<Rightarrow> nat \<Rightarrow> 'c list \<Rightarrow> 'c list \<Rightarrow>
   'c CharacterMapping list \<times> nat" where
  "compoundLoop L disp inp dIdx iIdx wordLength potentialWord wordReading =
     foldl (compoundStep L disp inp dIdx iIdx wordLength potentialWord wordReading)
           ([], iIdx) [0..<wordLength]"

text \<open>The branch \<^verbatim>\<open>if (!foundCompoundWord)\<close>: the entries pushed for one display
  character and the new input cursor.\<close>

definition singleStep ::
  "'c ReadingLookup \<Rightarrow> 'c list \<Rightarrow> 'c list \<Rightarrow> nat \<Rightarrow> nat \<Rightarrow> 'c CharacterMapping list \<times> nat" where
  "singleStep L disp inp dIdx iIdx =
     (let dChar = [disp ! dIdx]
      in if isKanjiFn L dChar \<and> hasKanaReading L dChar then
           (let kanaReading = getKanaReading L dChar
            in if truthy kanaReading then
                 (kanaEntries inp dIdx dChar (Some dChar) iIdx (length (the kanaReading)),
                  iIdx + length (the kanaReading))
               else
                 ([\<lparr>displayIndex = dIdx, inputIndex = iIdx, displayChar = dChar,
                    inputChar = charAt inp iIdx, isKanji = True, kanjiWord = None,
                    readingVariations = None\<rparr>],
                  iIdx + 1))
         else
           ([\<lparr>displayIndex = dIdx, inputIndex = iIdx, displayChar = dChar,
              inputChar = charAt inp iIdx, isKanji = False, kanjiWord = None,
              readingVariations = None\<rparr>],
            iIdx + 1))"

text \<open>One round of the outer \<^verbatim>\<open>while\<close> loop: the entries it pushes and the two
  cursors after it.\<close>

definition alignStep ::
  "'c ReadingLookup \<Rightarrow> 'c list \<Rightarrow> 'c list \<Rightarrow> nat \<Rightarrow> nat \<Rightarrow>
   'c CharacterMapping list \<times> nat \<times> nat" where
  "alignStep L disp inp dIdx iIdx =
     (case probeCompound L disp inp dIdx iIdx (min 10 (length disp - dIdx)) of
        Some (wordLength, potentialWord, wordReading) \<Rightarrow>
          (let (ms, cur) = compoundLoop L disp inp dIdx iIdx wordLength potentialWord wordReading
           in (ms, dIdx + wordLength, cur))
      | None \<Rightarrow>
          (let (ms, cur) = singleStep L disp inp dIdx iIdx
           in (ms, dIdx + 1, cur)))"

lemma probeCompound_ge2:
  "probeCompound L disp inp dIdx iIdx wl = Some (n, w, r) \<Longrightarrow> 2 \<le> n \<and> n \<le> wl"
proof (induction wl)
  case 0
  then show ?case by (simp add: probeCompound.simps)
next
  case (Suc k)
  then show ?case
    by (subst (asm) (2) probeCompound.simps) (auto simp: Let_def split: if_splits)
qed

lemma alignStep_advances:
  "alignStep L disp inp dIdx iIdx = (ms, d', i') \<Longrightarrow> dIdx < d'"
  by (auto simp: alignStep_def split: option.splits prod.splits dest: probeCompound_ge2)

text \<open>The \<^verbatim>\<open>while (displayIndex < displayText.length && inputIndex < inputText.length)\<close>
  loop, with the array \<open>mappings\<close> as an accumulator.\<close>

function alignLoop ::
  "'c ReadingLookup \<Rightarrow> 'c list \<Rightarrow> 'c list \<Rightarrow> nat \<Rightarrow> nat \<Rightarrow> 'c CharacterMapping list \<Rightarrow>
   'c CharacterMapping list" where
  "alignLoop L disp inp dIdx iIdx acc =
     (if dIdx < length disp \<and> iIdx < length inp then
        (case alignStep L disp inp dIdx iIdx of
           (ms, d', i') \<Rightarrow> alignLoop L disp inp d' i' (acc @ ms))
      else acc)"
  by pat_completeness auto

termination
  by (relation "measure (\<lambda>(L, disp, inp, dIdx, iIdx, acc). length disp - dIdx)")
     (auto dest!: alignStep_advances [OF sym])

declare alignLoop.simps [simp del]

definition createTextMapping :: "'c ReadingLookup \<Rightarrow> 'c list \<Rightarrow> 'c list \<Rightarrow> 'c TextMapping" where
  "createTextMapping L disp inp =
     \<lparr>displayText = disp, inputText = inp, mappings = alignLoop L disp inp 0 0 [],
      totalInputLength = length inp\<rparr>"

section \<open>Lookups on a mapping\<close>

text \<open>\<^verbatim>\<open>getTargetCharAtPosition\<close>: \<^verbatim>\<open>mappings[inputPosition]?.inputChar || ''\<close> behind the
  guard on \<^verbatim>\<open>mappings.length\<close>.\<close>

definition getTargetCharAtPosition :: "'c TextMapping \<Rightarrow> nat \<Rightarrow> 'c list" where
  "getTargetCharAtPosition mapping inputPosition =
     (if inputPosition \<ge> length (mappings mapping) then []
      else (case inputChar (mappings mapping ! inputPosition) of
              None \<Rightarrow> []
            | Some s \<Rightarrow> (if s = [] then [] else s)))"

section \<open>\<^verbatim>\<open>splitTextForDisplay\<close>\<close>

definition splitTextForDisplay :: "'c TextMapping \<Rightarrow> nat \<Rightarrow> 'c DisplaySplit" where
  "splitTextForDisplay mapping currentInputPosition =
     (case List.find (\<lambda>m. inputIndex m = currentInputPosition) (mappings mapping) of
        None \<Rightarrow>
          \<lparr>completedPart = displayText mapping, currentChar = [], remainingPart = []\<rparr>
      | Some currentMapping \<Rightarrow>
          (let displayPosition = displayIndex currentMapping;
               currentDisplayChar = displayChar currentMapping
           in if isKanji currentMapping then
                (let kanjiMappings =
                       filter (\<lambda>m. displayIndex m = displayPosition \<and> isKanji m)
                              (mappings mapping);
                     isStillInputtingKanji =
                       list_ex (\<lambda>m. inputIndex m \<ge> currentInputPosition) kanjiMappings
                 in if isStillInputtingKanji then
                      \<lparr>completedPart = substring (displayText mapping) 0 displayPosition,
                       currentChar = currentDisplayChar,
                       remainingPart = substringFrom (displayText mapping) (displayPosition + 1)\<rparr>
                    else
                      \<lparr>completedPart = substring (displayText mapping) 0 (displayPosition + 1),
                       currentChar = [],
                       remainingPart = substringFrom (displayText mapping) (displayPosition + 1)\<rparr>)
              else
                \<lparr>completedPart = substring (displayText mapping) 0 displayPosition,
                 currentChar = currentDisplayChar,
                 remainingPart = substringFrom (displayText mapping) (displayPosition + 1)\<rparr>))"

section \<open>\<^verbatim>\<open>createAdvancedTextMapping\<close>\<close>

text \<open>
  \<^verbatim>\<open>readingVariations.map(variation => variation[index]).filter(Boolean)\<close>: the unit at
  \<open>index\<close> of every variation long enough to have one.  \<^verbatim>\<open>generateReadingVariations\<close>
  (from \<^verbatim>\<open>./multipleReadings\<close>, not part of the sources) is a parameter; it returns a
  list of kana strings.
\<close>

definition variationsAt :: "'c list list \<Rightarrow> nat \<Rightarrow> 'c list list" where
  "variationsAt readingVars index = List.map_filter (\<lambda>variation. charAt variation index) readingVars"

definition attachVariations ::
  "'c list list \<Rightarrow> nat \<times> 'c CharacterMapping \<Rightarrow> 'c CharacterMapping" where
  "attachVariations readingVars p =
     (case p of (index, m) \<Rightarrow>
        if isKanji m then m\<lparr>readingVariations := Some (variationsAt readingVars index)\<rparr>
        else m)"

definition createAdvancedTextMapping ::
  "'c ReadingLookup \<Rightarrow> ('c list \<Rightarrow> 'c list \<Rightarrow> 'c list list) \<Rightarrow> 'c list \<Rightarrow> 'c list \<Rightarrow> 'c TextMapping" where
  "createAdvancedTextMapping L generateReadingVariations disp baseInputText =
     (let readingVars = generateReadingVariations disp baseInputText;
          baseMapping = createTextMapping L disp baseInputText
      in baseMapping\<lparr>mappings :=
           map (attachVariations readingVars) (enumerate 0 (mappings baseMapping))\<rparr>)"

section \<open>\<^verbatim>\<open>validateInputAtPosition\<close>\<close>

text \<open>\<^verbatim>\<open>Array.from(new Set(xs))\<close>: the elements in the order of their first
  occurrence.\<close>

definition dedupe :: "'a list \<Rightarrow> 'a list" where
  "dedupe xs = foldl (\<lambda>acc x. if x \<in> set acc then acc else acc @ [x]) [] xs"

text \<open>\<^verbatim>\<open>Array.prototype.findIndex\<close>: \<open>-1\<close> when no element satisfies the test.\<close>

fun findIndex :: "('a \<Rightarrow> bool) \<Rightarrow> 'a list \<Rightarrow> int" where
  "findIndex P [] = -1"
| "findIndex P (x # xs) =
     (if P x then 0 else (let k = findIndex P xs in if k < 0 then -1 else k + 1))"

text \<open>\<^verbatim>\<open>reading[k]\<close> for an index that can be \<open>-1\<close>.\<close>

definition charAtInt :: "'c list \<Rightarrow> int \<Rightarrow> 'c list option" where
  "charAtInt s k = (if 0 \<le> k then charAt s (nat k) else None)"

text \<open>
  The first half of the function, up to the first \<^verbatim>\<open>Array.from(new Set(possibleChars))\<close>:
  the target character, the unit of every alternative reading at the target's rank
  within its kanji, and the attached reading variations.  \<^verbatim>\<open>getPossibleReadings\<close> (from
  \<^verbatim>\<open>./multipleReadings\<close>) is a parameter.  Only called for an index below
  \<^verbatim>\<open>mappings.length\<close>.
\<close>

definition basicPossibleChars ::
  "('c list \<Rightarrow> 'c list list) \<Rightarrow> 'c TextMapping \<Rightarrow> nat \<Rightarrow> 'c list option list" where
  "basicPossibleChars getPossibleReadings mapping inputPosition =
     (let targetMapping = mappings mapping ! inputPosition;
          targetChar = inputChar targetMapping;
          pc1 = [targetChar];
          pc2 =
            (if isKanji targetMapping \<and> truthy (kanjiWord targetMapping) then
               (let alternativeReadings = getPossibleReadings (the (kanjiWord targetMapping))
                in if length alternativeReadings > 0 then
                     (let kanjiMappings =
                            filter (\<lambda>m. displayIndex m = displayIndex targetMapping \<and> isKanji m)
                                   (mappings mapping);
                          charPositionInKanji =
                            findIndex (\<lambda>m. inputIndex m = inputPosition) kanjiMappings
                      in pc1 @ map (\<lambda>reading. charAtInt reading charPositionInKanji)
                                   (filter (\<lambda>reading. charPositionInKanji < int (length reading))
                                           alternativeReadings))
                   else pc1)
             else pc1);
          pc3 =
            (case readingVariations targetMapping of
               Some rv \<Rightarrow> pc2 @ map Some rv
             | None \<Rightarrow> pc2)
      in dedupe pc3)"

text \<open>\<^verbatim>\<open>validateJapaneseInput\<close> is a parameter; it is called with the user's input and
  the target character.\<close>

definition validateInputAtPosition ::
  "('c list \<Rightarrow> 'c list list) \<Rightarrow> ('c list \<Rightarrow> 'c list option \<Rightarrow> 'c JapaneseValidation) \<Rightarrow>
   'c TextMapping \<Rightarrow> 'c list \<Rightarrow> nat \<Rightarrow> 'c ValidationResult" where
  "validateInputAtPosition getPossibleReadings validateJapaneseInput mapping userInput inputPosition =
     (if inputPosition \<ge> length (mappings mapping) then
        \<lparr>isValid = False, isComplete = False, canContinue = False, possibleChars = []\<rparr>
      else
        (let targetChar = inputChar (mappings mapping ! inputPosition);
             basicChars = basicPossibleChars getPossibleReadings mapping inputPosition;
             japaneseValidation = validateJapaneseInput userInput targetChar;
             isValidBasic = (Some userInput \<in> set basicChars);
             isValidAdvanced = jvIsValid japaneseValidation;
             valid = (isValidBasic \<or> isValidAdvanced);
             complete = (Some userInput = targetChar \<or>
                         (jvIsComplete japaneseValidation \<and> jvIsValid japaneseValidation));
             continue = ((isValidBasic \<and> \<not> complete) \<or>
                         (jvIsValid japaneseValidation \<and> jvCanContinue japaneseValidation));
             all1 = basicChars @
                      (case nextPossibleChars japaneseValidation of
                         Some next \<Rightarrow> map Some next
                       | None \<Rightarrow> []);
             all2 = all1 @
                      (case transformationPath japaneseValidation of
                         Some path \<Rightarrow> (if length path > 2 then map Some path else [])
                       | None \<Rightarrow> [])
         in \<lparr>isValid = valid, isComplete = complete, canContinue = continue,
              possibleChars = dedupe all2\<rparr>))"

section \<open>Sample reading data\<close>

text \<open>
  UTF-16 code units of the characters the examples use, and a small reading table:
  the compounds U+5927 U+5B66 U+751F (daigakusei), U+5927 U+5B66 (daigaku),
  U+4E00 U+65E5 (tsuitachi) and U+98DF U+3079 U+308B (taberu), and the single kanji
  U+5927 (dai), U+5B66 (gaku), U+751F (sei), U+4E00 (ichi), U+65E5 (hi), U+98DF (shoku),
  U+5C71 (yama) and U+6728 (ki).  The names \<open>kj_...\<close> are kanji, the names \<open>hg_...\<close>
  hiragana.
\<close>

abbreviation kj_dai :: nat where "kj_dai \<equiv> 22823"

abbreviation kj_gaku :: nat where "kj_gaku \<equiv> 23398"

abbreviation kj_sei :: nat where "kj_sei \<equiv> 29983"

abbreviation kj_ichi :: nat where "kj_ichi \<equiv> 19968"

abbreviation kj_hi :: nat where "kj_hi \<equiv> 26085"

abbreviation kj_shoku :: nat where "kj_shoku \<equiv> 39135"

abbreviation kj_yama :: nat where "kj_yama \<equiv> 23665"

abbreviation kj_ki :: nat where "kj_ki \<equiv> 26408"

abbreviation hg_i :: nat where "hg_i \<equiv> 12356"

abbreviation hg_ka :: nat where "hg_ka \<equiv> 12363"

abbreviation hg_ga :: nat where "hg_ga \<equiv> 12364"

abbreviation hg_ki :: nat where "hg_ki \<equiv> 12365"

abbreviation hg_ku :: nat where "hg_ku \<equiv> 12367"

abbreviation hg_shi :: nat where "hg_shi \<equiv> 12375"

abbreviation hg_se :: nat where "hg_se \<equiv> 12379"

abbreviation hg_ta :: nat where "hg_ta \<equiv> 12383"

abbreviation hg_da :: nat where "hg_da \<equiv> 12384"

abbreviation hg_chi :: nat where "hg_chi \<equiv> 12385"

abbreviation hg_tsu :: nat where "hg_tsu \<equiv> 12388"

abbreviation hg_no :: nat where "hg_no \<equiv> 12398"

abbreviation hg_hi :: nat where "hg_hi \<equiv> 12402"

abbreviation hg_be :: nat where "hg_be \<equiv> 12409"

abbreviation hg_ma :: nat where "hg_ma \<equiv> 12414"

abbreviation hg_ya :: nat where "hg_ya \<equiv> 12420"

abbreviation hg_small_yo :: nat where "hg_small_yo \<equiv> 12423"

abbreviation hg_ru :: nat where "hg_ru \<equiv> 12427"

abbreviation hg_ha :: nat where "hg_ha \<equiv> 12399"

abbreviation hg_ba :: nat where "hg_ba \<equiv> 12400"

abbreviation hg_pa :: nat where "hg_pa \<equiv> 12401"

definition sampleReading :: "nat list \<Rightarrow> nat list option" where
  "sampleReading s =
     (if s = [kj_dai, kj_gaku, kj_sei] then Some [hg_da, hg_i, hg_ga, hg_ku, hg_se, hg_i]
      else if s = [kj_dai, kj_gaku] then Some [hg_da, hg_i, hg_ga, hg_ku]
      else if s = [kj_ichi, kj_hi] then Some [hg_tsu, hg_i, hg_ta, hg_chi]
      else if s = [kj_shoku, hg_be, hg_ru] then Some [hg_ta, hg_be, hg_ru]
      else if s = [kj_dai] then Some [hg_da, hg_i]
      else if s = [kj_gaku] then Some [hg_ga, hg_ku]
      else if s = [kj_sei] then Some [hg_se, hg_i]
      else if s = [kj_ichi] then Some [hg_i, hg_chi]
      else if s = [kj_hi] then Some [hg_hi]
      else if s = [kj_shoku] then Some [hg_shi, hg_small_yo, hg_ku]
      else if s = [kj_yama] then Some [hg_ya, hg_ma]
      else if s = [kj_ki] then Some [hg_ki]
      else None)"

definition sampleLookup :: "nat ReadingLookup" where
  "sampleLookup =
     \<lparr>isKanjiFn = (\<lambda>s. s \<in> set [[kj_dai], [kj_gaku], [kj_sei], [kj_ichi], [kj_hi],
                                  [kj_shoku], [kj_yama], [kj_ki]]),
      getKanaReading = sampleReading,
      hasKanaReading = (\<lambda>s. sampleReading s \<noteq> None)\<rparr>"

text \<open>A sequential validator that accepts the target character itself and nothing
  else, and a source of alternative readings that knows none.\<close>

definition exactValidator :: "nat list \<Rightarrow> nat list option \<Rightarrow> nat JapaneseValidation" where
  "exactValidator userInput targetChar =
     \<lparr>jvIsValid = (Some userInput = targetChar), jvIsComplete = (Some userInput = targetChar),
      jvCanContinue = False, nextPossibleChars = None, transformationPath = None\<rparr>"

definition noReadings :: "nat list \<Rightarrow> nat list list" where
  "noReadings w = []"

text \<open>A sequential validator that knows the row \<open>ha \<rightarrow> ba \<rightarrow> pa\<close>: for the target \<open>pa\<close> the
  input \<open>ha\<close> is a valid step that can continue, with \<open>ba\<close> as the next character and the
  whole row as the transformation path.  Everything else is judged as by
  \<open>exactValidator\<close>.\<close>

definition rowValidator :: "nat list \<Rightarrow> nat list option \<Rightarrow> nat JapaneseValidation" where
  "rowValidator userInput targetChar =
     (if targetChar = Some [hg_pa] \<and> userInput = [hg_ha] then
        \<lparr>jvIsValid = True, jvIsComplete = False, jvCanContinue = True,
         nextPossibleChars = Some [[hg_ba]],
         transformationPath = Some [[hg_ha], [hg_ba], [hg_pa]]\<rparr>
      else exactValidator userInput targetChar)"

text \<open>Alternative readings: the kanji \<open>kj_hi\<close> is also read \<open>ka\<close>.\<close>

definition sampleAlternatives :: "nat list \<Rightarrow> nat list list" where
  "sampleAlternatives w = (if w = [kj_hi] then [[hg_hi], [hg_ka]] else [])"

section \<open>Predicates used in the invariants and the statements\<close>

text \<open>
  \<open>ordered\<close>: along the list the \<open>inputIndex\<close> grows strictly and the \<open>displayIndex\<close> never
  falls.  \<open>blockInv\<close> describes the entries pushed by one round of the outer loop, between
  the cursors before and after it; \<open>loopInv\<close> describes the entries pushed from a pair of
  cursors on.
\<close>

definition ordered :: "'c CharacterMapping list \<Rightarrow> bool" where
  "ordered ms = sorted_wrt (\<lambda>x y. inputIndex x < inputIndex y \<and> displayIndex x \<le> displayIndex y) ms"

definition blockInv ::
  "'c list \<Rightarrow> nat \<Rightarrow> nat \<Rightarrow> nat \<Rightarrow> nat \<Rightarrow> 'c list option \<Rightarrow> 'c CharacterMapping list \<Rightarrow> bool" where
  "blockInv disp d d' i i' w ms \<longleftrightarrow>
     ordered ms \<and>
     (\<forall>e\<in>set ms. d \<le> displayIndex e \<and> displayIndex e < d' \<and> i \<le> inputIndex e \<and>
                 inputIndex e < i' \<and> displayChar e = [disp ! displayIndex e] \<and>
                 kanjiWord e = w \<and> readingVariations e = None)"

definition loopInv :: "'c list \<Rightarrow> nat \<Rightarrow> nat \<Rightarrow> 'c CharacterMapping list \<Rightarrow> bool" where
  "loopInv disp d i ms \<longleftrightarrow>
     ordered ms \<and>
     (\<forall>e\<in>set ms. d \<le> displayIndex e \<and> displayIndex e < length disp \<and> i \<le> inputIndex e \<and>
                 displayChar e = [disp ! displayIndex e] \<and> readingVariations e = None) \<and>
     (\<forall>e1\<in>set ms. \<forall>e2\<in>set ms. displayIndex e1 = displayIndex e2 \<longrightarrow> kanjiWord e1 = kanjiWord e2)"

text \<open>The condition under which the probe accepts the window of length \<open>wl\<close>: its
  substring has a truthy reading, and the input text carries that reading at the input
  cursor.\<close>

definition compoundMatches ::
  "'c ReadingLookup \<Rightarrow> 'c list \<Rightarrow> 'c list \<Rightarrow> nat \<Rightarrow> nat \<Rightarrow> nat \<Rightarrow> bool" where
  "compoundMatches L disp inp d i wl =
     (truthy (getKanaReading L (substring disp d (d + wl))) \<and>
      substring inp i (i + length (the (getKanaReading L (substring disp d (d + wl)))))
        = the (getKanaReading L (substring disp d (d + wl))))"

text \<open>
  The number of input characters the loop spends on one display character when every
  kanji has a reading of its own: the length of that reading for a kanji, one for any
  other character.  \<open>readingsRegistered\<close> says that every kanji of the display text has
  such a reading (\<^verbatim>\<open>hasKanaReading\<close> holds and \<^verbatim>\<open>getKanaReading\<close> is truthy), and
  \<open>neededInput\<close> adds the numbers up.
\<close>

definition charReadingLength :: "'c ReadingLookup \<Rightarrow> 'c \<Rightarrow> nat" where
  "charReadingLength L c =
     (if isKanjiFn L [c] then length (the (getKanaReading L [c])) else 1)"

definition readingsRegistered :: "'c ReadingLookup \<Rightarrow> 'c list \<Rightarrow> bool" where
  "readingsRegistered L disp =
     (\<forall>c\<in>set disp. isKanjiFn L [c] \<longrightarrow> hasKanaReading L [c] \<and> truthy (getKanaReading L [c]))"

definition neededInput :: "'c ReadingLookup \<Rightarrow> 'c list \<Rightarrow> nat" where
  "neededInput L cs = sum_list (map (charReadingLength L) cs)"

definition displayRun :: "'c ReadingLookup \<Rightarrow> 'c list \<Rightarrow> nat \<Rightarrow> nat \<Rightarrow> nat list" where
  "displayRun L disp d d' =
     concat (map (\<lambda>k. replicate (charReadingLength L (disp ! k)) k) [d..<d'])"

text \<open>
  Every entry points into the display text and carries the character it points at.
\<close>

definition entriesInDisplay :: "'c TextMapping \<Rightarrow> bool" where
  "entriesInDisplay m =
     (\<forall>e\<in>set (mappings m). displayIndex e < length (displayText m) \<and>
                           displayChar e = [displayText m ! displayIndex e])"

text \<open>
  What the partition claim says of one mapping and one position: when an entry has the
  position as its \<open>inputIndex\<close>, the three parts concatenate to the display text and their
  lengths add up to its length; when none has, the completed part is the whole display
  text and the other two parts are empty.
\<close>

definition splitPartitions :: "'c TextMapping \<Rightarrow> nat \<Rightarrow> bool" where
  "splitPartitions m p =
     (let r = splitTextForDisplay m p
      in (case List.find (\<lambda>e. inputIndex e = p) (mappings m) of
            Some e \<Rightarrow>
              completedPart r @ currentChar r @ remainingPart r = displayText m \<and>
              length (completedPart r) + length (currentChar r) + length (remainingPart r)
                = length (displayText m)
          | None \<Rightarrow>
              completedPart r = displayText m \<and> currentChar r = [] \<and> remainingPart r = []))"

section \<open>Example texts\<close>

text \<open>A generator of reading variations that knows the reading \<open>ka\<close> for the text
  \<open>kj_hi\<close>.\<close>

definition sampleVariations :: "nat list \<Rightarrow> nat list \<Rightarrow> nat list list" where
  "sampleVariations disp inp = (if disp = [kj_hi] then [[hg_ka]] else [])"

abbreviation paMapping :: "nat TextMapping" where
  "paMapping \<equiv> createTextMapping sampleLookup [hg_pa] [hg_pa]"

abbreviation hiMapping :: "nat TextMapping" where
  "hiMapping \<equiv> createTextMapping sampleLookup [kj_hi] [hg_hi]"

abbreviation noKiMapping :: "nat TextMapping" where
  "noKiMapping \<equiv> createTextMapping sampleLookup [hg_no] [hg_no, hg_ki]"

abbreviation yamaNoMapping :: "nat TextMapping" where
  "yamaNoMapping \<equiv> createTextMapping sampleLookup [kj_yama, hg_no] [hg_ya, hg_ma, hg_no]"


abbreviation daigakuseiMapping :: "nat TextMapping" where
  "daigakuseiMapping \<equiv>
     createTextMapping sampleLookup [kj_dai, kj_gaku, kj_sei]
       [hg_da, hg_i, hg_ga, hg_ku, hg_se, hg_i]"


abbreviation taberuMapping :: "nat TextMapping" where
  "taberuMapping \<equiv> createTextMapping sampleLookup [kj_shoku, hg_be, hg_ru] [hg_ta, hg_be, hg_ru]"

section \<open>Invariants of the alignment loop\<close>

lemma alignLoop_unfold:
  "d < length disp \<Longrightarrow> i < length inp \<Longrightarrow> alignStep L disp inp d i = (ms, d', i') \<Longrightarrow>
   alignLoop L disp inp d i acc = alignLoop L disp inp d' i' (acc @ ms)"
  by (subst alignLoop.simps) simp

lemma alignLoop_stop:
  "\<not> (d < length disp \<and> i < length inp) \<Longrightarrow> alignLoop L disp inp d i acc = acc"
  by (subst alignLoop.simps) (rule if_not_P)

lemma alignLoop_acc:
  "alignLoop L disp inp d i acc = acc @ alignLoop L disp inp d i []"
proof (induction "length disp - d" arbitrary: d i acc rule: less_induct)
  case less
  show ?case
  proof (cases "d < length disp \<and> i < length inp")
    case False
    then show ?thesis by (simp add: alignLoop_stop)
  next
    case True
    obtain ms d' i' where st: "alignStep L disp inp d i = (ms, d', i')"
      by (cases "alignStep L disp inp d i") auto
    have adv: "d < d'" using st by (rule alignStep_advances)
    have lt: "length disp - d' < length disp - d" using adv True by arith
    have "alignLoop L disp inp d i acc = alignLoop L disp inp d' i' (acc @ ms)"
      using True st by (simp add: alignLoop_unfold)
    also have "\<dots> = (acc @ ms) @ alignLoop L disp inp d' i' []"
      by (rule less [OF lt])
    also have "\<dots> = acc @ (ms @ alignLoop L disp inp d' i' [])" by simp
    also have "ms @ alignLoop L disp inp d' i' [] = alignLoop L disp inp d' i' ([] @ ms)"
      using less [OF lt, of i' "[] @ ms"] by simp
    also have "\<dots> = alignLoop L disp inp d i []"
      using True st by (simp add: alignLoop_unfold)
    finally show ?thesis .
  qed
qed

lemma kanaEntries_mem:
  "e \<in> set (kanaEntries inp dIdx dChar word cur n) \<Longrightarrow>
   displayIndex e = dIdx \<and> displayChar e = dChar \<and> kanjiWord e = word \<and> isKanji e \<and>
   readingVariations e = None \<and>
   cur \<le> inputIndex e \<and> inputIndex e < cur + n \<and> inputIndex e < length inp"
  by (auto simp: kanaEntries_def)

lemma kanaEntries_ordered: "ordered (kanaEntries inp dIdx dChar word cur n)"
  unfolding ordered_def kanaEntries_def
  by (simp add: sorted_wrt_map sorted_wrt_filter [OF sorted_wrt_upt])

lemma blockInv_Nil: "blockInv disp d d' i i' w []"
  by (simp add: blockInv_def ordered_def)

lemma blockInv_append:
  "blockInv disp d d1 i i1 w ms \<Longrightarrow> blockInv disp d1 d2 i1 i2 w ms' \<Longrightarrow>
   d \<le> d1 \<Longrightarrow> d1 \<le> d2 \<Longrightarrow> i \<le> i1 \<Longrightarrow> i1 \<le> i2 \<Longrightarrow>
   blockInv disp d d2 i i2 w (ms @ ms')"
  unfolding blockInv_def ordered_def sorted_wrt_append
  by (fastforce)

lemma blockInv_kanaEntries:
  "blockInv disp k (Suc k) cur (cur + n) w (kanaEntries inp k [disp ! k] w cur n)"
  unfolding blockInv_def
  by (auto simp: kanaEntries_ordered dest: kanaEntries_mem)

lemma compoundStep_inv:
  assumes "blockInv disp d (d + n) i cur (Some w) ms" "i \<le> cur"
    and "compoundStep L disp inp d i wl w r (ms, cur) n = (ms', cur')"
  shows "blockInv disp d (d + Suc n) i cur' (Some w) ms' \<and> i \<le> cur'"
proof (cases "isKanjiFn L [disp ! (d + n)]")
  case True
  define len where "len = (if truthy (getKanaReading L [disp ! (d + n)])
      then length (the (getKanaReading L [disp ! (d + n)]))
      else max 1 (length (substringFrom r (cur - i)) div (wl - n)))"
  have ms': "ms' = ms @ kanaEntries inp (d + n) [disp ! (d + n)] (Some w) cur len"
    and cur': "cur' = cur + len"
    using assms(3) True by (auto simp: compoundStep_def Let_def len_def)
  have "blockInv disp (d + n) (Suc (d + n)) cur (cur + len) (Some w)
          (kanaEntries inp (d + n) [disp ! (d + n)] (Some w) cur len)"
    by (rule blockInv_kanaEntries)
  with assms(1,2) show ?thesis
    unfolding ms' cur' by (auto intro: blockInv_append)
next
  case False
  have ms': "ms' = ms @ [\<lparr>displayIndex = d + n, inputIndex = cur,
                    displayChar = [disp ! (d + n)], inputChar = charAt inp cur,
                    isKanji = False, kanjiWord = Some w, readingVariations = None\<rparr>]"
    and cur': "cur' = cur + 1"
    using assms(3) False by (auto simp: compoundStep_def Let_def)
  have "blockInv disp (d + n) (Suc (d + n)) cur (cur + 1) (Some w)
          [\<lparr>displayIndex = d + n, inputIndex = cur,
                    displayChar = [disp ! (d + n)], inputChar = charAt inp cur,
                    isKanji = False, kanjiWord = Some w, readingVariations = None\<rparr>]"
    by (simp add: blockInv_def ordered_def)
  with assms(1,2) show ?thesis
    unfolding ms' cur' by (auto intro: blockInv_append)
qed

lemma compoundFold_inv:
  "foldl (compoundStep L disp inp d i wl w r) ([], i) [0..<n] = (ms, cur) \<Longrightarrow>
   blockInv disp d (d + n) i cur (Some w) ms \<and> i \<le> cur"
proof (induction n arbitrary: ms cur)
  case 0
  then show ?case by (simp add: blockInv_Nil)
next
  case (Suc n)
  obtain ms0 cur0 where f0: "foldl (compoundStep L disp inp d i wl w r) ([], i) [0..<n] = (ms0, cur0)"
    by (cases "foldl (compoundStep L disp inp d i wl w r) ([], i) [0..<n]") auto
  from Suc.IH [OF f0] have inv0: "blockInv disp d (d + n) i cur0 (Some w) ms0" "i \<le> cur0" by auto
  from Suc.prems f0 have "compoundStep L disp inp d i wl w r (ms0, cur0) n = (ms, cur)"
    by simp
  from compoundStep_inv [OF inv0 this] show ?case .
qed

lemma singleStep_inv:
  "singleStep L disp inp d i = (ms, i') \<Longrightarrow> \<exists>w. blockInv disp d (Suc d) i i' w ms \<and> i \<le> i'"
  apply (auto simp: singleStep_def Let_def split: if_splits)
  subgoal by (rule exI, rule blockInv_kanaEntries)
  subgoal by (rule exI [of _ None]) (simp add: blockInv_def ordered_def)
  subgoal by (rule exI [of _ None]) (simp add: blockInv_def ordered_def)
  subgoal by (rule exI [of _ None]) (simp add: blockInv_def ordered_def)
  done

lemma alignStep_inv:
  assumes "d < length disp" "alignStep L disp inp d i = (ms, d', i')"
  shows "d < d' \<and> d' \<le> length disp \<and> i \<le> i' \<and> (\<exists>w. blockInv disp d d' i i' w ms)"
proof (cases "probeCompound L disp inp d i (min 10 (length disp - d))")
  case None
  with assms(2) obtain "singleStep L disp inp d i = (ms, i')" "d' = d + 1"
    by (auto simp: alignStep_def split: prod.splits)
  with singleStep_inv [of L disp inp d i ms i'] assms(1) show ?thesis by auto
next
  case (Some t)
  obtain wl w r where t: "t = (wl, w, r)" by (cases t) auto
  from Some t probeCompound_ge2 have wl: "2 \<le> wl" "wl \<le> min 10 (length disp - d)" by blast+
  from assms(2) Some t have "compoundLoop L disp inp d i wl w r = (ms, i')" "d' = d + wl"
    by (auto simp: alignStep_def split: prod.splits)
  with compoundFold_inv [of L disp inp d i wl w r wl ms i'] wl assms(1) show ?thesis
    by (auto simp: compoundLoop_def)
qed

lemma loopInv_block:
  assumes "blockInv disp d d' i i' w ms" "loopInv disp d' i' ms'" "d \<le> d'" "d' \<le> length disp" "i \<le> i'"
  shows "loopInv disp d i (ms @ ms')"
  using assms unfolding loopInv_def blockInv_def ordered_def sorted_wrt_append
  by (fastforce)

lemma alignLoop_inv: "loopInv disp d i (alignLoop L disp inp d i [])"
proof (induction "length disp - d" arbitrary: d i rule: less_induct)
  case less
  show ?case
  proof (cases "d < length disp \<and> i < length inp")
    case False
    then show ?thesis by (simp add: alignLoop_stop loopInv_def ordered_def)
  next
    case True
    obtain ms d' i' where st: "alignStep L disp inp d i = (ms, d', i')"
      by (cases "alignStep L disp inp d i") auto
    from alignStep_inv [OF _ st] True obtain w where
      s: "d < d'" "d' \<le> length disp" "i \<le> i'" "blockInv disp d d' i i' w ms" by auto
    have lt: "length disp - d' < length disp - d" using s True by arith
    have "alignLoop L disp inp d i [] = ms @ alignLoop L disp inp d' i' []"
      using True st alignLoop_acc [of L disp inp d' i' ms] by (simp add: alignLoop_unfold)
    moreover have "loopInv disp d' i' (alignLoop L disp inp d' i' [])"
      by (rule less [OF lt])
    ultimately show ?thesis using s by (auto intro: loopInv_block)
  qed
qed

section \<open>De-duplication\<close>

lemma dedupe_fold_set:
  "set (foldl (\<lambda>acc x. if x \<in> set acc then acc else acc @ [x]) acc xs) = set acc \<union> set xs"
  by (induction xs arbitrary: acc) auto

lemma dedupe_fold_distinct:
  "distinct acc \<Longrightarrow> distinct (foldl (\<lambda>acc x. if x \<in> set acc then acc else acc @ [x]) acc xs)"
  by (induction xs arbitrary: acc) auto

lemma set_dedupe: "set (dedupe xs) = set xs"
  by (simp add: dedupe_def dedupe_fold_set)

lemma distinct_dedupe: "distinct (dedupe xs)"
  by (simp add: dedupe_def dedupe_fold_distinct)

lemma target_in_basicPossibleChars:
  "inputChar (mappings m ! p) \<in> set (basicPossibleChars G m p)"
  by (auto simp: basicPossibleChars_def Let_def set_dedupe split: option.splits)

lemma target_in_possibleChars:
  "p < length (mappings m) \<Longrightarrow>
   inputChar (mappings m ! p) \<in> set (possibleChars (validateInputAtPosition G V m u p))"
  by (simp add: validateInputAtPosition_def Let_def set_dedupe target_in_basicPossibleChars)

section \<open>Consequences of the invariants\<close>

lemma createTextMapping_inv:
  "loopInv disp 0 0 (mappings (createTextMapping L disp inp))"
  by (simp add: createTextMapping_def alignLoop_inv)

lemma ordered_sorted_displayIndex: "ordered ms \<Longrightarrow> sorted (map displayIndex ms)"
  unfolding ordered_def sorted_map by (erule sorted_wrt_mono_rel [rotated]) simp


lemma attachVariations_fields:
  "displayIndex (attachVariations rv q) = displayIndex (snd q)"
  "inputIndex (attachVariations rv q) = inputIndex (snd q)"
  "displayChar (attachVariations rv q) = displayChar (snd q)"
  "inputChar (attachVariations rv q) = inputChar (snd q)"
  "isKanji (attachVariations rv q) = isKanji (snd q)"
  "kanjiWord (attachVariations rv q) = kanjiWord (snd q)"
  by (auto simp: attachVariations_def split: prod.splits)

lemma map_attachVariations:
  assumes "\<And>q. f (attachVariations rv q) = f (snd q)"
  shows "map (f \<circ> attachVariations rv) (enumerate n xs) = map f xs"
  by (induction xs arbitrary: n) (simp_all add: assms)



lemma probeCompound_step:
  "2 \<le> n \<Longrightarrow> probeCompound L disp inp d i n =
     (if compoundMatches L disp inp d i n
      then Some (n, substring disp d (d + n), the (getKanaReading L (substring disp d (d + n))))
      else probeCompound L disp inp d i (n - 1))"
  by (subst probeCompound.simps) (simp add: compoundMatches_def Let_def)

lemma probeCompound_small: "n < 2 \<Longrightarrow> probeCompound L disp inp d i n = None"
  by (subst probeCompound.simps) simp

lemma probeCompound_Some:
  "probeCompound L disp inp d i n = Some (wl, w, r) \<Longrightarrow>
   2 \<le> wl \<and> wl \<le> n \<and> compoundMatches L disp inp d i wl \<and>
   (\<forall>k. wl < k \<and> k \<le> n \<longrightarrow> \<not> compoundMatches L disp inp d i k) \<and>
   w = substring disp d (d + wl) \<and> getKanaReading L w = Some r"
proof (induction n)
  case 0
  then show ?case by (simp add: probeCompound_small)
next
  case (Suc n)
  show ?case
  proof (cases "Suc n < 2")
    case True
    with Suc.prems show ?thesis by (simp add: probeCompound_small)
  next
    case False
    then have ge: "2 \<le> Suc n" by simp
    show ?thesis
    proof (cases "compoundMatches L disp inp d i (Suc n)")
      case True
      with Suc.prems ge have "wl = Suc n" "w = substring disp d (d + wl)"
        "r = the (getKanaReading L w)"
        by (auto simp: probeCompound_step)
      with True ge show ?thesis
        by (auto simp: compoundMatches_def truthy_def split: option.splits)
    next
      case nomatch: False
      with Suc.prems ge have "probeCompound L disp inp d i n = Some (wl, w, r)"
        by (simp add: probeCompound_step)
      from Suc.IH [OF this] nomatch show ?thesis
        by (auto simp: le_Suc_eq)
    qed
  qed
qed

lemma probeCompound_None:
  "probeCompound L disp inp d i n = None \<Longrightarrow>
   (\<forall>k. 2 \<le> k \<and> k \<le> n \<longrightarrow> \<not> compoundMatches L disp inp d i k)"
proof (induction n)
  case 0
  then show ?case by simp
next
  case (Suc n)
  show ?case
  proof (cases "Suc n < 2")
    case True
    then show ?thesis by auto
  next
    case False
    then have ge: "2 \<le> Suc n" by simp
    with Suc.prems have nm: "\<not> compoundMatches L disp inp d i (Suc n)"
      and "probeCompound L disp inp d i n = None"
      by (auto simp: probeCompound_step split: if_splits)
    from Suc.IH [OF this(2)] nm show ?thesis by (auto simp: le_Suc_eq)
  qed
qed

lemma probeCompound_longest:
  "2 \<le> wl \<Longrightarrow> wl \<le> n \<Longrightarrow> compoundMatches L disp inp d i wl \<Longrightarrow>
   (\<forall>k. wl < k \<and> k \<le> n \<longrightarrow> \<not> compoundMatches L disp inp d i k) \<Longrightarrow>
   probeCompound L disp inp d i n =
     Some (wl, substring disp d (d + wl), the (getKanaReading L (substring disp d (d + wl))))"
proof (induction n)
  case 0
  then show ?case by simp
next
  case (Suc n)
  show ?case
  proof (cases "wl = Suc n")
    case True
    with Suc.prems show ?thesis by (simp add: probeCompound_step)
  next
    case False
    with Suc.prems have "wl \<le> n" "\<not> compoundMatches L disp inp d i (Suc n)" by auto
    with Suc show ?thesis by (simp add: probeCompound_step)
  qed
qed

lemma compoundStep_grows:
  "fst st \<noteq> [] \<Longrightarrow> fst (compoundStep L disp inp d i wl w r st k) \<noteq> []"
  by (cases st) (simp add: compoundStep_def Let_def)

lemma compoundFold_grows:
  "fst st \<noteq> [] \<Longrightarrow> fst (foldl (compoundStep L disp inp d i wl w r) st ks) \<noteq> []"
  by (induction ks arbitrary: st) (simp_all add: compoundStep_grows)

lemma kanaEntries_nonempty:
  "cur < length inp \<Longrightarrow> 0 < n \<Longrightarrow> kanaEntries inp d c w cur n \<noteq> []"
proof -
  assume "cur < length inp" "0 < n"
  then have "0 \<in> set (filter (\<lambda>j. cur + j < length inp) [0..<n])" by simp
  then have "filter (\<lambda>j. cur + j < length inp) [0..<n] \<noteq> []" by (metis empty_iff empty_set)
  then show ?thesis by (simp add: kanaEntries_def)
qed

lemma compoundStep_first:
  "i < length inp \<Longrightarrow> fst (compoundStep L disp inp d i wl w r ([], i) 0) \<noteq> []"
  by (auto simp: compoundStep_def Let_def truthy_def kanaEntries_nonempty split: option.splits)

lemma compoundLoop_nonempty:
  assumes "i < length inp" "0 < wl"
  shows "fst (compoundLoop L disp inp d i wl w r) \<noteq> []"
proof -
  from assms(2) have "[0..<wl] = 0 # [1..<wl]" by (simp add: upt_conv_Cons)
  then show ?thesis
    using assms(1) by (simp add: compoundLoop_def compoundFold_grows compoundStep_first)
qed

lemma compoundLoop_word:
  "e \<in> set (fst (compoundLoop L disp inp d i wl w r)) \<Longrightarrow> kanjiWord e = Some w"
  using compoundFold_inv [of L disp inp d i wl w r wl
      "fst (compoundLoop L disp inp d i wl w r)" "snd (compoundLoop L disp inp d i wl w r)"]
  by (simp add: compoundLoop_def blockInv_def)

lemma compoundMatches_input:
  "compoundMatches L disp inp d i wl \<Longrightarrow> i < length inp"
  by (cases "i < length inp") (auto simp: compoundMatches_def truthy_def substring_def split: option.splits)

lemma whole_compound:
  assumes "length disp = 3" "compoundMatches L disp inp 0 0 3"
  shows "mappings (createTextMapping L disp inp) =
           fst (compoundLoop L disp inp 0 0 3 disp (the (getKanaReading L disp)))"
proof -
  from assms(2) have i: "0 < length inp" by (rule compoundMatches_input)
  from assms have sub: "substring disp 0 3 = disp" by (simp add: substring_def)
  have "\<forall>k. 3 < k \<and> k \<le> min 10 (length disp - 0) \<longrightarrow> \<not> compoundMatches L disp inp 0 0 k"
    using assms(1) by auto
  from probeCompound_longest [OF _ _ assms(2) this]
  have "probeCompound L disp inp 0 0 (min 10 (length disp - 0)) =
          Some (3, disp, the (getKanaReading L disp))"
    using assms(1) sub by simp
  then have st: "alignStep L disp inp 0 0 =
      (fst (compoundLoop L disp inp 0 0 3 disp (the (getKanaReading L disp))), 3,
       snd (compoundLoop L disp inp 0 0 3 disp (the (getKanaReading L disp))))"
    by (simp add: alignStep_def split: prod.splits)
  have "alignLoop L disp inp 0 0 [] =
          alignLoop L disp inp 3 (snd (compoundLoop L disp inp 0 0 3 disp (the (getKanaReading L disp))))
            ([] @ fst (compoundLoop L disp inp 0 0 3 disp (the (getKanaReading L disp))))"
    using assms(1) i by (intro alignLoop_unfold st) auto
  also have "\<dots> = [] @ fst (compoundLoop L disp inp 0 0 3 disp (the (getKanaReading L disp)))"
    using assms(1) by (intro alignLoop_stop) simp
  finally show ?thesis by (simp add: createTextMapping_def)
qed

section \<open>Alignment when every kanji has its own reading\<close>

lemma neededInput_append: "neededInput L (xs @ ys) = neededInput L xs + neededInput L ys"
  by (simp add: neededInput_def)

lemma neededInput_take_Suc:
  "n < length xs \<Longrightarrow> neededInput L (take (Suc n) xs) = neededInput L (take n xs) + charReadingLength L (xs ! n)"
  by (simp add: take_Suc_conv_app_nth neededInput_def)

lemma neededInput_take_drop:
  "neededInput L xs = neededInput L (take n xs) + neededInput L (drop n xs)"
  using neededInput_append [of L "take n xs" "drop n xs"] by simp

lemma charReadingLength_pos:
  "readingsRegistered L disp \<Longrightarrow> c \<in> set disp \<Longrightarrow> 1 \<le> charReadingLength L c"
  by (auto simp: readingsRegistered_def charReadingLength_def truthy_def Suc_le_eq
      split: option.splits)

lemma neededInput_pos:
  assumes "readingsRegistered L disp" "d < length disp"
  shows "1 \<le> neededInput L (drop d disp)"
proof -
  from assms(2) have "drop d disp = disp ! d # drop (Suc d) disp"
    by (simp add: Cons_nth_drop_Suc)
  moreover from assms have "1 \<le> charReadingLength L (disp ! d)"
    by (intro charReadingLength_pos) auto
  ultimately show ?thesis by (simp add: neededInput_def)
qed

lemma displayRun_append:
  "d \<le> d1 \<Longrightarrow> d1 \<le> d2 \<Longrightarrow> displayRun L disp d d2 = displayRun L disp d d1 @ displayRun L disp d1 d2"
proof -
  assume "d \<le> d1" "d1 \<le> d2"
  then have "[d..<d2] = [d..<d1] @ [d1..<d2]"
    by (metis le_Suc_ex upt_add_eq_append)
  then show ?thesis by (simp add: displayRun_def)
qed

lemma displayRun_single:
  "displayRun L disp d (Suc d) = replicate (charReadingLength L (disp ! d)) d"
  by (simp add: displayRun_def)

lemma kanaEntries_full:
  assumes "cur + n \<le> length inp"
  shows "map inputIndex (kanaEntries inp d c w cur n) = [cur..<cur + n]"
    and "map displayIndex (kanaEntries inp d c w cur n) = replicate n d"
proof -
  have f: "filter (\<lambda>j. cur + j < length inp) [0..<n] = [0..<n]"
    using assms by (intro filter_True) auto
  have "map (\<lambda>j. cur + j) [0..<n] = [cur..<cur + n]"
    using map_add_upt [of cur n] by (simp add: add.commute)
  then show "map inputIndex (kanaEntries inp d c w cur n) = [cur..<cur + n]"
    by (simp add: kanaEntries_def f comp_def)
  show "map displayIndex (kanaEntries inp d c w cur n) = replicate n d"
    by (simp add: kanaEntries_def f comp_def map_replicate_const)
qed

lemma compoundStep_full:
  assumes "d + k < length disp" "readingsRegistered L disp"
    and "cur + charReadingLength L (disp ! (d + k)) \<le> length inp"
    and "compoundStep L disp inp d i wl w r (ms, cur) k = (ms', cur')"
  shows "cur' = cur + charReadingLength L (disp ! (d + k))"
    and "map inputIndex ms' = map inputIndex ms @ [cur..<cur']"
    and "map displayIndex ms' = map displayIndex ms @ replicate (charReadingLength L (disp ! (d + k))) (d + k)"
proof -
  have mem: "disp ! (d + k) \<in> set disp" using assms(1) by simp
  show "cur' = cur + charReadingLength L (disp ! (d + k))"
    and "map inputIndex ms' = map inputIndex ms @ [cur..<cur']"
    and "map displayIndex ms' = map displayIndex ms @ replicate (charReadingLength L (disp ! (d + k))) (d + k)"
  proof (atomize (full), cases "isKanjiFn L [disp ! (d + k)]")
    case True
    with assms(2) mem have t: "truthy (getKanaReading L [disp ! (d + k)])"
      by (auto simp: readingsRegistered_def)
    from True have len: "charReadingLength L (disp ! (d + k)) = length (the (getKanaReading L [disp ! (d + k)]))"
      by (simp add: charReadingLength_def)
    from assms(4) True t have
      "ms' = ms @ kanaEntries inp (d + k) [disp ! (d + k)] (Some w) cur (charReadingLength L (disp ! (d + k)))"
      "cur' = cur + charReadingLength L (disp ! (d + k))"
      by (auto simp: compoundStep_def Let_def len)
    with kanaEntries_full [OF assms(3)]
    show "cur' = cur + charReadingLength L (disp ! (d + k)) \<and>
      map inputIndex ms' = map inputIndex ms @ [cur..<cur'] \<and>
      map displayIndex ms' = map displayIndex ms @ replicate (charReadingLength L (disp ! (d + k))) (d + k)"
      by simp
  next
    case False
    then have len: "charReadingLength L (disp ! (d + k)) = 1"
      by (simp add: charReadingLength_def)
    from assms(4) False show "cur' = cur + charReadingLength L (disp ! (d + k)) \<and>
      map inputIndex ms' = map inputIndex ms @ [cur..<cur'] \<and>
      map displayIndex ms' = map displayIndex ms @ replicate (charReadingLength L (disp ! (d + k))) (d + k)"
      by (auto simp: compoundStep_def Let_def len)
  qed
qed

lemma compoundFold_full:
  assumes "readingsRegistered L disp"
  shows "d + n \<le> length disp \<Longrightarrow> i + neededInput L (take n (drop d disp)) \<le> length inp \<Longrightarrow>
     foldl (compoundStep L disp inp d i wl w r) ([], i) [0..<n] = (ms, cur) \<Longrightarrow>
     cur = i + neededInput L (take n (drop d disp)) \<and> map inputIndex ms = [i..<cur] \<and>
     map displayIndex ms = displayRun L disp d (d + n)"
proof (induction n arbitrary: ms cur)
  case 0
  then show ?case by (simp add: neededInput_def displayRun_def)
next
  case (Suc n)
  obtain ms0 cur0 where f0: "foldl (compoundStep L disp inp d i wl w r) ([], i) [0..<n] = (ms0, cur0)"
    by (cases "foldl (compoundStep L disp inp d i wl w r) ([], i) [0..<n]") auto
  from Suc.prems(1) have n: "n < length (drop d disp)" by simp
  then have nd: "drop d disp ! n = disp ! (d + n)" by simp
  have split: "neededInput L (take (Suc n) (drop d disp)) =
      neededInput L (take n (drop d disp)) + charReadingLength L (disp ! (d + n))"
    using neededInput_take_Suc [OF n, of L] nd by simp
  from Suc.prems(1,2) split have
    "d + n \<le> length disp" "i + neededInput L (take n (drop d disp)) \<le> length inp" by auto
  from Suc.IH [OF this f0] have ih: "cur0 = i + neededInput L (take n (drop d disp))"
    "map inputIndex ms0 = [i..<cur0]" "map displayIndex ms0 = displayRun L disp d (d + n)" by auto
  from Suc.prems(3) f0 have st: "compoundStep L disp inp d i wl w r (ms0, cur0) n = (ms, cur)"
    by simp
  have bound: "cur0 + charReadingLength L (disp ! (d + n)) \<le> length inp"
    using Suc.prems(2) split ih(1) by simp
  from Suc.prems(1) have dn: "d + n < length disp" by simp
  note s = compoundStep_full [OF dn assms bound st]
  have "cur = i + neededInput L (take (Suc n) (drop d disp))"
    using s(1) ih(1) split by simp
  moreover have "map inputIndex ms = [i..<cur]"
  proof -
    have "i \<le> cur0" using ih(1) by simp
    then have "[i..<cur0 + charReadingLength L (disp ! (d + n))] =
          [i..<cur0] @ [cur0..<cur0 + charReadingLength L (disp ! (d + n))]"
      by (rule upt_add_eq_append)
    with s(1,2) ih(2) show ?thesis by simp
  qed
  moreover have "map displayIndex ms = displayRun L disp d (d + Suc n)"
    using s(3) ih(3) displayRun_append [of d "d + n" "d + Suc n" L disp]
    by (simp add: displayRun_single)
  ultimately show ?case by simp
qed

lemma singleStep_full:
  assumes "d < length disp" "readingsRegistered L disp"
    and "i + charReadingLength L (disp ! d) \<le> length inp"
    and "singleStep L disp inp d i = (ms, i')"
  shows "i' = i + charReadingLength L (disp ! d) \<and> map inputIndex ms = [i..<i'] \<and>
         map displayIndex ms = displayRun L disp d (Suc d)"
proof (cases "isKanjiFn L [disp ! d]")
  case True
  from assms(1) have "disp ! d \<in> set disp" by simp
  with True assms(2) have t: "truthy (getKanaReading L [disp ! d])" "hasKanaReading L [disp ! d]"
    by (auto simp: readingsRegistered_def)
  from True have len: "charReadingLength L (disp ! d) = length (the (getKanaReading L [disp ! d]))"
    by (simp add: charReadingLength_def)
  from assms(4) True t have
    "ms = kanaEntries inp d [disp ! d] (Some [disp ! d]) i (charReadingLength L (disp ! d))"
    "i' = i + charReadingLength L (disp ! d)"
    by (auto simp: singleStep_def Let_def len)
  with kanaEntries_full [OF assms(3)] show ?thesis
    by (simp add: displayRun_single)
next
  case False
  then have len: "charReadingLength L (disp ! d) = 1"
    by (simp add: charReadingLength_def)
  from assms(4) False show ?thesis
    by (auto simp: singleStep_def Let_def len displayRun_single)
qed

lemma alignStep_full:
  assumes "d < length disp" "readingsRegistered L disp"
    and "i + neededInput L (drop d disp) \<le> length inp"
    and "alignStep L disp inp d i = (ms, d', i')"
  shows "d < d' \<and> d' \<le> length disp \<and> i' = i + neededInput L (take (d' - d) (drop d disp)) \<and>
         map inputIndex ms = [i..<i'] \<and> map displayIndex ms = displayRun L disp d d'"
proof (cases "probeCompound L disp inp d i (min 10 (length disp - d))")
  case None
  with assms(4) have ss: "singleStep L disp inp d i = (ms, i')" and d': "d' = d + 1"
    by (auto simp: alignStep_def split: prod.splits)
  from assms(1) have t1: "take 1 (drop d disp) = [disp ! d]"
    by (simp add: take_Suc_conv_app_nth)
  then have n1: "neededInput L (take 1 (drop d disp)) = charReadingLength L (disp ! d)"
    by (simp add: neededInput_def)
  with assms(3) neededInput_take_drop [of L "drop d disp" 1]
  have "i + charReadingLength L (disp ! d) \<le> length inp" by simp
  from singleStep_full [OF assms(1,2) this ss] d' n1 assms(1) show ?thesis by simp
next
  case (Some t)
  obtain wl w r where t: "t = (wl, w, r)" by (cases t) auto
  from Some t probeCompound_ge2 have wl: "2 \<le> wl" "wl \<le> min 10 (length disp - d)" by blast+
  from assms(4) Some t have cl: "compoundLoop L disp inp d i wl w r = (ms, i')" and d': "d' = d + wl"
    by (auto simp: alignStep_def split: prod.splits)
  from wl assms(1) have b1: "d + wl \<le> length disp" by auto
  from assms(3) neededInput_take_drop [of L "drop d disp" wl]
  have b2: "i + neededInput L (take wl (drop d disp)) \<le> length inp" by simp
  from cl have "foldl (compoundStep L disp inp d i wl w r) ([], i) [0..<wl] = (ms, i')"
    by (simp add: compoundLoop_def)
  from compoundFold_full [OF assms(2) b1 b2 this] d' wl b1 show ?thesis by simp
qed

lemma alignLoop_full:
  assumes "readingsRegistered L disp"
  shows "d \<le> length disp \<Longrightarrow> i + neededInput L (drop d disp) = length inp \<Longrightarrow>
     map inputIndex (alignLoop L disp inp d i []) = [i..<length inp] \<and>
     map displayIndex (alignLoop L disp inp d i []) = displayRun L disp d (length disp)"
proof (induction "length disp - d" arbitrary: d i rule: less_induct)
  case less
  show ?case
  proof (cases "d < length disp")
    case False
    with less.prems have "d = length disp" "i = length inp"
      by (simp_all add: neededInput_def)
    then show ?thesis by (simp add: alignLoop_stop displayRun_def)
  next
    case True
    from neededInput_pos [OF assms True] less.prems(2) have i: "i < length inp" by simp
    obtain ms d' i' where st: "alignStep L disp inp d i = (ms, d', i')"
      by (cases "alignStep L disp inp d i") auto
    from less.prems(2) have le: "i + neededInput L (drop d disp) \<le> length inp" by simp
    from alignStep_full [OF True assms le st] have s: "d < d'" "d' \<le> length disp"
      "i' = i + neededInput L (take (d' - d) (drop d disp))"
      "map inputIndex ms = [i..<i']" "map displayIndex ms = displayRun L disp d d'" by auto
    have lt: "length disp - d' < length disp - d" using s True by arith
    have "drop (d' - d) (drop d disp) = drop d' disp" using s(1) by simp
    with neededInput_take_drop [of L "drop d disp" "d' - d"] less.prems(2) s(3)
    have rest: "i' + neededInput L (drop d' disp) = length inp" by simp
    from less.hyps [OF lt s(2) rest] have ih:
      "map inputIndex (alignLoop L disp inp d' i' []) = [i'..<length inp]"
      "map displayIndex (alignLoop L disp inp d' i' []) = displayRun L disp d' (length disp)"
      by auto
    have unf: "alignLoop L disp inp d i [] = ms @ alignLoop L disp inp d' i' []"
      using True i st alignLoop_acc [of L disp inp d' i' ms] by (simp add: alignLoop_unfold)
    have "i \<le> i'" "i' \<le> length inp" using s(3) rest by simp_all
    then have "[i..<length inp] = [i..<i'] @ [i'..<length inp]"
      by (metis le_Suc_ex upt_add_eq_append)
    moreover have "displayRun L disp d (length disp) =
        displayRun L disp d d' @ displayRun L disp d' (length disp)"
      using s(1,2) by (intro displayRun_append) auto
    ultimately show ?thesis using unf ih s(4,5) by simp
  qed
qed

lemma aligned_length:
  assumes "readingsRegistered L disp" and "length inp = neededInput L disp"
  shows "length (mappings (createTextMapping L disp inp)) = length inp"
proof -
  from assms(2) have "0 + neededInput L (drop 0 disp) = length inp" by simp
  from alignLoop_full [OF assms(1) _ this]
  have "map inputIndex (alignLoop L disp inp 0 0 []) = [0..<length inp]" by simp
  then have "length (map inputIndex (alignLoop L disp inp 0 0 [])) = length [0..<length inp]"
    by (rule arg_cong)
  then show ?thesis by (simp add: createTextMapping_def)
qed

section \<open>Evaluated examples\<close>

text \<open>The equations that evaluate the alignment of a concrete text.\<close>

lemmas align_eval =
  createTextMapping_def alignLoop.simps alignStep_def probeCompound.simps substring_def
  compoundLoop_def compoundStep_def kanaEntries_def charAt_def truthy_def substringFrom_def
  Let_def singleStep_def sampleLookup_def sampleReading_def upt_conv_Cons

lemma taberuMapping_eval:
  "taberuMapping =
     \<lparr>displayText = [kj_shoku, hg_be, hg_ru], inputText = [hg_ta, hg_be, hg_ru],
      mappings =
        [\<lparr>displayIndex = 0, inputIndex = 0, displayChar = [kj_shoku], inputChar = Some [hg_ta],
          isKanji = True, kanjiWord = Some [kj_shoku, hg_be, hg_ru], readingVariations = None\<rparr>,
         \<lparr>displayIndex = 0, inputIndex = 1, displayChar = [kj_shoku], inputChar = Some [hg_be],
          isKanji = True, kanjiWord = Some [kj_shoku, hg_be, hg_ru], readingVariations = None\<rparr>,
         \<lparr>displayIndex = 0, inputIndex = 2, displayChar = [kj_shoku], inputChar = Some [hg_ru],
          isKanji = True, kanjiWord = Some [kj_shoku, hg_be, hg_ru], readingVariations = None\<rparr>,
         \<lparr>displayIndex = 1, inputIndex = 3, displayChar = [hg_be], inputChar = None,
          isKanji = False, kanjiWord = Some [kj_shoku, hg_be, hg_ru], readingVariations = None\<rparr>,
         \<lparr>displayIndex = 2, inputIndex = 4, displayChar = [hg_ru], inputChar = None,
          isKanji = False, kanjiWord = Some [kj_shoku, hg_be, hg_ru], readingVariations = None\<rparr>],
      totalInputLength = 3\<rparr>"
  by (simp add: align_eval)

lemma paMapping_eval:
  "paMapping =
     \<lparr>displayText = [hg_pa], inputText = [hg_pa],
      mappings =
        [\<lparr>displayIndex = 0, inputIndex = 0, displayChar = [hg_pa], inputChar = Some [hg_pa],
          isKanji = False, kanjiWord = None, readingVariations = None\<rparr>],
      totalInputLength = 1\<rparr>"
  by (simp add: align_eval)

lemma hiMapping_eval:
  "hiMapping =
     \<lparr>displayText = [kj_hi], inputText = [hg_hi],
      mappings =
        [\<lparr>displayIndex = 0, inputIndex = 0, displayChar = [kj_hi], inputChar = Some [hg_hi],
          isKanji = True, kanjiWord = Some [kj_hi], readingVariations = None\<rparr>],
      totalInputLength = 1\<rparr>"
  by (simp add: align_eval)

lemma yamaNoMapping_eval:
  "yamaNoMapping =
     \<lparr>displayText = [kj_yama, hg_no], inputText = [hg_ya, hg_ma, hg_no],
      mappings =
        [\<lparr>displayIndex = 0, inputIndex = 0, displayChar = [kj_yama], inputChar = Some [hg_ya],
          isKanji = True, kanjiWord = Some [kj_yama], readingVariations = None\<rparr>,
         \<lparr>displayIndex = 0, inputIndex = 1, displayChar = [kj_yama], inputChar = Some [hg_ma],
          isKanji = True, kanjiWord = Some [kj_yama], readingVariations = None\<rparr>,
         \<lparr>displayIndex = 1, inputIndex = 2, displayChar = [hg_no], inputChar = Some [hg_no],
          isKanji = False, kanjiWord = None, readingVariations = None\<rparr>],
      totalInputLength = 3\<rparr>"
  by (simp add: align_eval)

lemma daigakuseiMapping_eval:
  "daigakuseiMapping =
     \<lparr>displayText = [kj_dai, kj_gaku, kj_sei],
      inputText = [hg_da, hg_i, hg_ga, hg_ku, hg_se, hg_i],
      mappings =
        [\<lparr>displayIndex = 0, inputIndex = 0, displayChar = [kj_dai], inputChar = Some [hg_da],
          isKanji = True, kanjiWord = Some [kj_dai, kj_gaku, kj_sei], readingVariations = None\<rparr>,
         \<lparr>displayIndex = 0, inputIndex = 1, displayChar = [kj_dai], inputChar = Some [hg_i],
          isKanji = True, kanjiWord = Some [kj_dai, kj_gaku, kj_sei], readingVariations = None\<rparr>,
         \<lparr>displayIndex = 1, inputIndex = 2, displayChar = [kj_gaku], inputChar = Some [hg_ga],
          isKanji = True, kanjiWord = Some [kj_dai, kj_gaku, kj_sei], readingVariations = None\<rparr>,
         \<lparr>displayIndex = 1, inputIndex = 3, displayChar = [kj_gaku], inputChar = Some [hg_ku],
          isKanji = True, kanjiWord = Some [kj_dai, kj_gaku, kj_sei], readingVariations = None\<rparr>,
         \<lparr>displayIndex = 2, inputIndex = 4, displayChar = [kj_sei], inputChar = Some [hg_se],
          isKanji = True, kanjiWord = Some [kj_dai, kj_gaku, kj_sei], readingVariations = None\<rparr>,
         \<lparr>displayIndex = 2, inputIndex = 5, displayChar = [kj_sei], inputChar = Some [hg_i],
          isKanji = True, kanjiWord = Some [kj_dai, kj_gaku, kj_sei], readingVariations = None\<rparr>],
      totalInputLength = 6\<rparr>"
  by (simp add: align_eval)



lemma noKiMapping_eval:
  "noKiMapping =
     \<lparr>displayText = [hg_no], inputText = [hg_no, hg_ki],
      mappings =
        [\<lparr>displayIndex = 0, inputIndex = 0, displayChar = [hg_no], inputChar = Some [hg_no],
          isKanji = False, kanjiWord = None, readingVariations = None\<rparr>],
      totalInputLength = 2\<rparr>"
  by (simp add: align_eval)

lemmas validate_eval =
  basicPossibleChars_def dedupe_def truthy_def charAtInt_def charAt_def Let_def
  exactValidator_def rowValidator_def noReadings_def sampleAlternatives_def

section \<open>Claims about \<^verbatim>\<open>validateInputAtPosition\<close>\<close>

text \<open>
  \<^bold>\<open>C2\<close>.  At a position that has a mapping entry, the three flags of the result
  combine the basic match and the sequential validator's result as follows, where
  \<open>basic\<close> says that the user's input is one of the de-duplicated basic characters,
  \<open>target\<close> is the entry's input character and \<open>sequentialResult\<close> is what
  \<^verbatim>\<open>validateJapaneseInput\<close> returns for the user's input and the target:
  \<open>isValid = basic \<or> sequentialResult.isValid\<close>,
  \<open>isComplete = (userInput = target) \<or> (sequentialResult.isComplete \<and> sequentialResult.isValid)\<close>,
  \<open>canContinue = (basic \<and> \<not> isComplete) \<or> (sequentialResult.isValid \<and> sequentialResult.canContinue)\<close>.
\<close>

theorem validate_combines:
  assumes "p < length (mappings m)"
  shows "let r = validateInputAtPosition G V m u p;
             target = inputChar (mappings m ! p);
             sequentialResult = V u target;
             basic = (Some u \<in> set (basicPossibleChars G m p))
         in isValid r = (basic \<or> jvIsValid sequentialResult)
          \<and> isComplete r =
              (Some u = target \<or> (jvIsComplete sequentialResult \<and> jvIsValid sequentialResult))
          \<and> canContinue r =
              ((basic \<and> \<not> isComplete r) \<or>
               (jvIsValid sequentialResult \<and> jvCanContinue sequentialResult))"
  using assms by (simp add: validateInputAtPosition_def Let_def)

theorem validate_combines_witness:
  "0 < length (mappings paMapping)
   \<and> isValid (validateInputAtPosition noReadings rowValidator paMapping [hg_ha] 0)
   \<and> \<not> isComplete (validateInputAtPosition noReadings rowValidator paMapping [hg_ha] 0)
   \<and> canContinue (validateInputAtPosition noReadings rowValidator paMapping [hg_ha] 0)"
  using validate_combines [of 0 paMapping noReadings rowValidator "[hg_ha]"]
  by (simp add: paMapping_eval validate_eval)

text \<open>
  \<^bold>\<open>C7\<close>.  At a position that has a mapping entry, the returned \<open>possibleChars\<close> has no
  duplicates, and its elements are exactly: the target character; for a kanji entry
  with a \<open>kanjiWord\<close>, the character at the entry's rank (its index among the kanji
  entries of its \<open>displayIndex\<close>) of every alternative reading longer than the rank; the
  attached \<open>readingVariations\<close>; the validator's \<open>nextPossibleChars\<close> when present; and
  the validator's \<open>transformationPath\<close> when it has more than two steps.
\<close>

theorem possibleChars_union:
  assumes "p < length (mappings m)"
  shows "let r = validateInputAtPosition G V m u p;
             t = mappings m ! p;
             sequentialResult = V u (inputChar t);
             rank = findIndex (\<lambda>e. inputIndex e = p)
                      (filter (\<lambda>e. displayIndex e = displayIndex t \<and> isKanji e) (mappings m));
             basic =
               {inputChar t}
               \<union> (if isKanji t \<and> truthy (kanjiWord t)
                  then (\<lambda>reading. charAtInt reading rank) `
                         set (filter (\<lambda>reading. rank < int (length reading))
                                (G (the (kanjiWord t))))
                  else {})
               \<union> (case readingVariations t of Some rv \<Rightarrow> Some ` set rv | None \<Rightarrow> {})
         in distinct (possibleChars r)
          \<and> set (basicPossibleChars G m p) = basic
          \<and> set (possibleChars r) =
              basic
              \<union> (case nextPossibleChars sequentialResult of
                   Some nxt \<Rightarrow> Some ` set nxt | None \<Rightarrow> {})
              \<union> (case transformationPath sequentialResult of
                   Some path \<Rightarrow> (if length path > 2 then Some ` set path else {})
                 | None \<Rightarrow> {})"
proof -
  have basic: "set (basicPossibleChars G m p) =
     {inputChar (mappings m ! p)}
     \<union> (if isKanji (mappings m ! p) \<and> truthy (kanjiWord (mappings m ! p))
        then (\<lambda>reading. charAtInt reading
                 (findIndex (\<lambda>e. inputIndex e = p)
                    (filter (\<lambda>e. displayIndex e = displayIndex (mappings m ! p) \<and> isKanji e)
                       (mappings m)))) `
               set (filter (\<lambda>reading.
                      findIndex (\<lambda>e. inputIndex e = p)
                        (filter (\<lambda>e. displayIndex e = displayIndex (mappings m ! p) \<and> isKanji e)
                           (mappings m)) < int (length reading))
                      (G (the (kanjiWord (mappings m ! p)))))
        else {})
     \<union> (case readingVariations (mappings m ! p) of Some rv \<Rightarrow> Some ` set rv | None \<Rightarrow> {})"
    by (auto simp: basicPossibleChars_def Let_def set_dedupe split: option.splits)
  have all: "set (possibleChars (validateInputAtPosition G V m u p)) =
     set (basicPossibleChars G m p)
     \<union> (case nextPossibleChars (V u (inputChar (mappings m ! p))) of
          Some nxt \<Rightarrow> Some ` set nxt | None \<Rightarrow> {})
     \<union> (case transformationPath (V u (inputChar (mappings m ! p))) of
          Some path \<Rightarrow> (if length path > 2 then Some ` set path else {})
        | None \<Rightarrow> {})"
    using assms
    by (auto simp: validateInputAtPosition_def Let_def set_dedupe split: option.splits)
  have "distinct (possibleChars (validateInputAtPosition G V m u p))"
    by (simp add: validateInputAtPosition_def Let_def distinct_dedupe)
  with basic all show ?thesis
    unfolding Let_def by (simp only:)
qed

theorem possibleChars_union_witness:
  "0 < length (mappings paMapping)
   \<and> possibleChars (validateInputAtPosition noReadings rowValidator paMapping [hg_ha] 0)
       = [Some [hg_pa], Some [hg_ba], Some [hg_ha]]
   \<and> 0 < length (mappings hiMapping)
   \<and> set (possibleChars (validateInputAtPosition sampleAlternatives exactValidator hiMapping [hg_ka] 0))
       = {Some [hg_hi], Some [hg_ka]}
   \<and> distinct (possibleChars (validateInputAtPosition sampleAlternatives exactValidator hiMapping [hg_ka] 0))"
proof -
  have pa: "possibleChars (validateInputAtPosition noReadings rowValidator paMapping [hg_ha] 0)
       = [Some [hg_pa], Some [hg_ba], Some [hg_ha]]"
    by (simp add: validateInputAtPosition_def paMapping_eval validate_eval)
  have "0 < length (mappings hiMapping)"
    by (simp add: hiMapping_eval)
  from possibleChars_union [OF this, of sampleAlternatives exactValidator "[hg_ka]"]
  have "set (possibleChars (validateInputAtPosition sampleAlternatives exactValidator hiMapping [hg_ka] 0))
       = {Some [hg_hi], Some [hg_ka]}
   \<and> distinct (possibleChars (validateInputAtPosition sampleAlternatives exactValidator hiMapping [hg_ka] 0))"
    by (auto simp: hiMapping_eval validate_eval)
  with pa show ?thesis by (simp add: paMapping_eval hiMapping_eval)
qed

text \<open>
  \<^bold>\<open>C3\<close>, as the code has it.  The guard of \<^verbatim>\<open>validateInputAtPosition\<close> compares the
  position with \<^verbatim>\<open>mappings.length\<close>.  So for a mapping whose entry list is not longer
  than \<open>totalInputLength\<close>, every position at or past \<open>totalInputLength\<close> gets the
  all-false result with no possible characters.  The mappings that \<^verbatim>\<open>createTextMapping\<close>
  builds when every kanji has a reading of its own and the input text is as long as those
  readings together are of this kind: they have exactly \<open>totalInputLength\<close> entries.
\<close>

theorem validate_past_total:
  "(length (mappings m) \<le> totalInputLength m \<and> totalInputLength m \<le> p \<longrightarrow>
      validateInputAtPosition G V m u p =
        \<lparr>isValid = False, isComplete = False, canContinue = False, possibleChars = []\<rparr>)
   \<and> (readingsRegistered L disp \<and> length inp = neededInput L disp \<and>
      totalInputLength (createTextMapping L disp inp) \<le> q \<longrightarrow>
      validateInputAtPosition G V (createTextMapping L disp inp) u q =
        \<lparr>isValid = False, isComplete = False, canContinue = False, possibleChars = []\<rparr>)"
proof (intro conjI impI)
  assume "length (mappings m) \<le> totalInputLength m \<and> totalInputLength m \<le> p"
  then show "validateInputAtPosition G V m u p =
        \<lparr>isValid = False, isComplete = False, canContinue = False, possibleChars = []\<rparr>"
    by (simp add: validateInputAtPosition_def)
next
  assume a: "readingsRegistered L disp \<and> length inp = neededInput L disp \<and>
      totalInputLength (createTextMapping L disp inp) \<le> q"
  then have "length (mappings (createTextMapping L disp inp)) = length inp"
    by (intro aligned_length) auto
  moreover have "totalInputLength (createTextMapping L disp inp) = length inp"
    by (simp add: createTextMapping_def)
  ultimately show "validateInputAtPosition G V (createTextMapping L disp inp) u q =
        \<lparr>isValid = False, isComplete = False, canContinue = False, possibleChars = []\<rparr>"
    using a by (simp add: validateInputAtPosition_def)
qed

theorem validate_past_total_witness:
  "length (mappings paMapping) \<le> totalInputLength paMapping
   \<and> totalInputLength paMapping \<le> 1
   \<and> validateInputAtPosition noReadings rowValidator paMapping [hg_ha] 1 =
       \<lparr>isValid = False, isComplete = False, canContinue = False, possibleChars = []\<rparr>
   \<and> readingsRegistered sampleLookup [kj_dai, kj_gaku, kj_sei]
   \<and> length [hg_da, hg_i, hg_ga, hg_ku, hg_se, hg_i]
       = neededInput sampleLookup [kj_dai, kj_gaku, kj_sei]
   \<and> totalInputLength daigakuseiMapping \<le> 6
   \<and> validateInputAtPosition noReadings exactValidator daigakuseiMapping [hg_i] 6 =
       \<lparr>isValid = False, isComplete = False, canContinue = False, possibleChars = []\<rparr>"
proof -
  have r: "readingsRegistered sampleLookup [kj_dai, kj_gaku, kj_sei]"
    by (simp add: readingsRegistered_def sampleLookup_def sampleReading_def truthy_def)
  have n: "length [hg_da, hg_i, hg_ga, hg_ku, hg_se, hg_i]
       = neededInput sampleLookup [kj_dai, kj_gaku, kj_sei]"
    by (simp add: neededInput_def charReadingLength_def sampleLookup_def sampleReading_def)
  have t: "totalInputLength daigakuseiMapping \<le> 6"
    by (simp add: createTextMapping_def)
  have p: "length (mappings paMapping) \<le> totalInputLength paMapping"
    "totalInputLength paMapping \<le> 1"
    by (simp_all add: paMapping_eval)
  from validate_past_total [of paMapping 1 noReadings rowValidator "[hg_ha]" sampleLookup
      "[kj_dai, kj_gaku, kj_sei]" "[hg_da, hg_i, hg_ga, hg_ku, hg_se, hg_i]" 6]
    validate_past_total [of paMapping 1 noReadings exactValidator "[hg_i]" sampleLookup
      "[kj_dai, kj_gaku, kj_sei]" "[hg_da, hg_i, hg_ga, hg_ku, hg_se, hg_i]" 6]
    r n t p
  show ?thesis by simp
qed

text \<open>
  The claim as written fails when the entry list is longer than the input text.
  The display text \<open>kj_shoku hg_be hg_ru\<close> with the input \<open>taberu\<close> matches as a compound;
  the single reading \<open>shoku\<close> of its kanji
  takes all three input characters, and the two kana that follow get entries with the
  input indices 3 and 4 and no input character.  Position 3 is then past
  \<open>totalInputLength = 3\<close> but has an entry, and the result lists the undefined target as
  a possible character.
\<close>

theorem validate_past_total_counterexample:
  "totalInputLength taberuMapping = 3
   \<and> length (mappings taberuMapping) = 5
   \<and> possibleChars (validateInputAtPosition noReadings exactValidator taberuMapping [hg_be] 3)
       = [None]
   \<and> validateInputAtPosition noReadings exactValidator taberuMapping [hg_be] 3
       \<noteq> \<lparr>isValid = False, isComplete = False, canContinue = False, possibleChars = []\<rparr>"
  by (simp add: validateInputAtPosition_def taberuMapping_eval validate_eval)

section \<open>Claims about \<^verbatim>\<open>createTextMapping\<close> and \<^verbatim>\<open>createAdvancedTextMapping\<close>\<close>




text \<open>
  \<^bold>\<open>C4\<close>.  At every display position \<open>d\<close> and input cursor \<open>i\<close> the probe runs from
  \<open>min 10 (length disp - d)\<close> down to 2.  When it returns a window, that window matches
  (its substring has a registered reading that the input carries at \<open>i\<close>), no longer
  window up to the start length matches, and the round of the loop advances the display
  cursor by the window's length and tags every entry it pushes with the window's word.
  When it returns nothing, no window of length 2 up to the start length matches.  In
  particular, when the windows of length 2 and 3 both match and no longer one does, the
  window of length 3 is the one returned; and for a display text of three characters whose
  prefix of length 2 and whose whole both match, every entry of the mapping carries the
  whole text as \<open>kanjiWord\<close>, none the prefix of length 2.
\<close>

theorem longest_compound_first:
  "(\<forall>wl w r. probeCompound L disp inp d i (min 10 (length disp - d)) = Some (wl, w, r) \<longrightarrow>
       2 \<le> wl \<and> wl \<le> min 10 (length disp - d) \<and> compoundMatches L disp inp d i wl \<and>
       (\<forall>k. wl < k \<and> k \<le> min 10 (length disp - d) \<longrightarrow> \<not> compoundMatches L disp inp d i k) \<and>
       w = substring disp d (d + wl) \<and> getKanaReading L w = Some r \<and>
       fst (snd (alignStep L disp inp d i)) = d + wl \<and>
       (\<forall>e\<in>set (fst (alignStep L disp inp d i)). kanjiWord e = Some w))
   \<and> (probeCompound L disp inp d i (min 10 (length disp - d)) = None \<longrightarrow>
       (\<forall>k. 2 \<le> k \<and> k \<le> min 10 (length disp - d) \<longrightarrow> \<not> compoundMatches L disp inp d i k))
   \<and> (3 \<le> length disp - d \<and> compoundMatches L disp inp d i 2 \<and> compoundMatches L disp inp d i 3 \<and>
      (\<forall>k. 3 < k \<and> k \<le> min 10 (length disp - d) \<longrightarrow> \<not> compoundMatches L disp inp d i k) \<longrightarrow>
       probeCompound L disp inp d i (min 10 (length disp - d)) =
         Some (3, substring disp d (d + 3), the (getKanaReading L (substring disp d (d + 3)))))
   \<and> (length disp = 3 \<and> compoundMatches L disp inp 0 0 2 \<and> compoundMatches L disp inp 0 0 3 \<longrightarrow>
       mappings (createTextMapping L disp inp) \<noteq> [] \<and>
       (\<forall>e\<in>set (mappings (createTextMapping L disp inp)).
          kanjiWord e = Some disp \<and> kanjiWord e \<noteq> Some (substring disp 0 2)))"
proof (intro conjI)
  show "\<forall>wl w r. probeCompound L disp inp d i (min 10 (length disp - d)) = Some (wl, w, r) \<longrightarrow>
       2 \<le> wl \<and> wl \<le> min 10 (length disp - d) \<and> compoundMatches L disp inp d i wl \<and>
       (\<forall>k. wl < k \<and> k \<le> min 10 (length disp - d) \<longrightarrow> \<not> compoundMatches L disp inp d i k) \<and>
       w = substring disp d (d + wl) \<and> getKanaReading L w = Some r \<and>
       fst (snd (alignStep L disp inp d i)) = d + wl \<and>
       (\<forall>e\<in>set (fst (alignStep L disp inp d i)). kanjiWord e = Some w)"
  proof (intro allI impI)
    fix wl w r
    assume p: "probeCompound L disp inp d i (min 10 (length disp - d)) = Some (wl, w, r)"
    have step: "alignStep L disp inp d i =
        (fst (compoundLoop L disp inp d i wl w r), d + wl, snd (compoundLoop L disp inp d i wl w r))"
      using p by (simp add: alignStep_def split: prod.splits)
    have "\<forall>e\<in>set (fst (alignStep L disp inp d i)). kanjiWord e = Some w"
      unfolding step using compoundLoop_word [of _ L disp inp d i wl w r] by simp
    with probeCompound_Some [OF p] step
    show "2 \<le> wl \<and> wl \<le> min 10 (length disp - d) \<and> compoundMatches L disp inp d i wl \<and>
       (\<forall>k. wl < k \<and> k \<le> min 10 (length disp - d) \<longrightarrow> \<not> compoundMatches L disp inp d i k) \<and>
       w = substring disp d (d + wl) \<and> getKanaReading L w = Some r \<and>
       fst (snd (alignStep L disp inp d i)) = d + wl \<and>
       (\<forall>e\<in>set (fst (alignStep L disp inp d i)). kanjiWord e = Some w)"
      by auto
  qed
next
  show "probeCompound L disp inp d i (min 10 (length disp - d)) = None \<longrightarrow>
       (\<forall>k. 2 \<le> k \<and> k \<le> min 10 (length disp - d) \<longrightarrow> \<not> compoundMatches L disp inp d i k)"
    using probeCompound_None by blast
next
  show "3 \<le> length disp - d \<and> compoundMatches L disp inp d i 2 \<and> compoundMatches L disp inp d i 3 \<and>
      (\<forall>k. 3 < k \<and> k \<le> min 10 (length disp - d) \<longrightarrow> \<not> compoundMatches L disp inp d i k) \<longrightarrow>
       probeCompound L disp inp d i (min 10 (length disp - d)) =
         Some (3, substring disp d (d + 3), the (getKanaReading L (substring disp d (d + 3))))"
  proof
    assume "3 \<le> length disp - d \<and> compoundMatches L disp inp d i 2 \<and> compoundMatches L disp inp d i 3 \<and>
      (\<forall>k. 3 < k \<and> k \<le> min 10 (length disp - d) \<longrightarrow> \<not> compoundMatches L disp inp d i k)"
    then show "probeCompound L disp inp d i (min 10 (length disp - d)) =
         Some (3, substring disp d (d + 3), the (getKanaReading L (substring disp d (d + 3))))"
      by (intro probeCompound_longest) auto
  qed
next
  show "length disp = 3 \<and> compoundMatches L disp inp 0 0 2 \<and> compoundMatches L disp inp 0 0 3 \<longrightarrow>
       mappings (createTextMapping L disp inp) \<noteq> [] \<and>
       (\<forall>e\<in>set (mappings (createTextMapping L disp inp)).
          kanjiWord e = Some disp \<and> kanjiWord e \<noteq> Some (substring disp 0 2))"
  proof
    assume a: "length disp = 3 \<and> compoundMatches L disp inp 0 0 2 \<and> compoundMatches L disp inp 0 0 3"
    then have m: "mappings (createTextMapping L disp inp) =
           fst (compoundLoop L disp inp 0 0 3 disp (the (getKanaReading L disp)))"
      by (intro whole_compound) auto
    from a have "0 < length inp" by (auto dest: compoundMatches_input)
    then have ne: "mappings (createTextMapping L disp inp) \<noteq> []"
      unfolding m by (intro compoundLoop_nonempty) auto
    from a have "length (substring disp 0 2) = 2" by (simp add: substring_def)
    with a have "disp \<noteq> substring disp 0 2" by auto
    then have "\<forall>e\<in>set (mappings (createTextMapping L disp inp)).
          kanjiWord e = Some disp \<and> kanjiWord e \<noteq> Some (substring disp 0 2)"
      unfolding m using compoundLoop_word by fastforce
    with ne show "mappings (createTextMapping L disp inp) \<noteq> [] \<and>
       (\<forall>e\<in>set (mappings (createTextMapping L disp inp)).
          kanjiWord e = Some disp \<and> kanjiWord e \<noteq> Some (substring disp 0 2))" by blast
  qed
qed

theorem longest_compound_first_witness:
  "length [kj_dai, kj_gaku, kj_sei] = 3
   \<and> compoundMatches sampleLookup [kj_dai, kj_gaku, kj_sei]
        [hg_da, hg_i, hg_ga, hg_ku, hg_se, hg_i] 0 0 2
   \<and> compoundMatches sampleLookup [kj_dai, kj_gaku, kj_sei]
        [hg_da, hg_i, hg_ga, hg_ku, hg_se, hg_i] 0 0 3
   \<and> probeCompound sampleLookup [kj_dai, kj_gaku, kj_sei]
        [hg_da, hg_i, hg_ga, hg_ku, hg_se, hg_i] 0 0 (min 10 (length [kj_dai, kj_gaku, kj_sei] - 0))
       = Some (3, [kj_dai, kj_gaku, kj_sei], [hg_da, hg_i, hg_ga, hg_ku, hg_se, hg_i])
   \<and> mappings daigakuseiMapping \<noteq> []
   \<and> list_all (\<lambda>e. kanjiWord e = Some [kj_dai, kj_gaku, kj_sei] \<and>
                    kanjiWord e \<noteq> Some [kj_dai, kj_gaku])
        (mappings daigakuseiMapping)"
proof -
  note T = longest_compound_first [of sampleLookup "[kj_dai, kj_gaku, kj_sei]"
      "[hg_da, hg_i, hg_ga, hg_ku, hg_se, hg_i]" 0 0]
  have m: "compoundMatches sampleLookup [kj_dai, kj_gaku, kj_sei]
        [hg_da, hg_i, hg_ga, hg_ku, hg_se, hg_i] 0 0 2"
    "compoundMatches sampleLookup [kj_dai, kj_gaku, kj_sei]
        [hg_da, hg_i, hg_ga, hg_ku, hg_se, hg_i] 0 0 3"
    by (simp_all add: compoundMatches_def substring_def truthy_def sampleLookup_def
        sampleReading_def)
  have s2: "substring [kj_dai, kj_gaku, kj_sei] 0 2 = [kj_dai, kj_gaku]"
    and s3: "substring [kj_dai, kj_gaku, kj_sei] 0 (0 + 3) = [kj_dai, kj_gaku, kj_sei]"
    by (simp_all add: substring_def)
  have r3: "getKanaReading sampleLookup [kj_dai, kj_gaku, kj_sei]
              = Some [hg_da, hg_i, hg_ga, hg_ku, hg_se, hg_i]"
    by (simp add: sampleLookup_def sampleReading_def)
  have p3: "probeCompound sampleLookup [kj_dai, kj_gaku, kj_sei]
        [hg_da, hg_i, hg_ga, hg_ku, hg_se, hg_i] 0 0
        (min 10 (length [kj_dai, kj_gaku, kj_sei] - 0)) =
      Some (3, substring [kj_dai, kj_gaku, kj_sei] 0 (0 + 3),
            the (getKanaReading sampleLookup (substring [kj_dai, kj_gaku, kj_sei] 0 (0 + 3))))"
  proof (rule T [THEN conjunct2, THEN conjunct2, THEN conjunct1, THEN mp])
    show "3 \<le> length [kj_dai, kj_gaku, kj_sei] - 0 \<and>
      compoundMatches sampleLookup [kj_dai, kj_gaku, kj_sei]
        [hg_da, hg_i, hg_ga, hg_ku, hg_se, hg_i] 0 0 2 \<and>
      compoundMatches sampleLookup [kj_dai, kj_gaku, kj_sei]
        [hg_da, hg_i, hg_ga, hg_ku, hg_se, hg_i] 0 0 3 \<and>
      (\<forall>k. 3 < k \<and> k \<le> min 10 (length [kj_dai, kj_gaku, kj_sei] - 0) \<longrightarrow>
           \<not> compoundMatches sampleLookup [kj_dai, kj_gaku, kj_sei]
               [hg_da, hg_i, hg_ga, hg_ku, hg_se, hg_i] 0 0 k)"
      using m by auto
  qed
  have p4: "mappings daigakuseiMapping \<noteq> [] \<and>
      (\<forall>e\<in>set (mappings daigakuseiMapping).
         kanjiWord e = Some [kj_dai, kj_gaku, kj_sei] \<and>
         kanjiWord e \<noteq> Some (substring [kj_dai, kj_gaku, kj_sei] 0 2))"
    by (rule T [THEN conjunct2, THEN conjunct2, THEN conjunct2, THEN mp]) (simp add: m)
  from p3 have "probeCompound sampleLookup [kj_dai, kj_gaku, kj_sei]
        [hg_da, hg_i, hg_ga, hg_ku, hg_se, hg_i] 0 0 (min 10 (length [kj_dai, kj_gaku, kj_sei] - 0))
       = Some (3, [kj_dai, kj_gaku, kj_sei], [hg_da, hg_i, hg_ga, hg_ku, hg_se, hg_i])"
    by (simp only: s3 r3 option.sel)
  moreover from p4 have "mappings daigakuseiMapping \<noteq> []"
    by (rule conjunct1)
  moreover from p4 have "list_all (\<lambda>e. kanjiWord e = Some [kj_dai, kj_gaku, kj_sei] \<and>
                    kanjiWord e \<noteq> Some [kj_dai, kj_gaku])
        (mappings daigakuseiMapping)"
    unfolding s2 list_all_iff by (rule conjunct2)
  ultimately show ?thesis using m by simp
qed

text \<open>
  \<^bold>\<open>C8\<close>.  The mapping returned by \<^verbatim>\<open>createAdvancedTextMapping\<close> has the display text, the
  input text and \<open>totalInputLength\<close> of the base mapping, entry by entry the same
  \<open>displayIndex\<close>, \<open>inputIndex\<close>, \<open>displayChar\<close>, \<open>inputChar\<close>, \<open>isKanji\<close> and \<open>kanjiWord\<close>,
  and its entry \<open>k\<close> is the base entry with \<open>readingVariations\<close> set (to the characters
  at index \<open>k\<close> of the variations long enough) when the base entry is marked \<open>isKanji\<close>,
  and the base entry itself otherwise.
\<close>

theorem advanced_keeps_base:
  "let base = createTextMapping L disp inp;
       adv = createAdvancedTextMapping L gen disp inp
   in displayText adv = displayText base \<and> inputText adv = inputText base
    \<and> totalInputLength adv = totalInputLength base
    \<and> map displayIndex (mappings adv) = map displayIndex (mappings base)
    \<and> map inputIndex (mappings adv) = map inputIndex (mappings base)
    \<and> map displayChar (mappings adv) = map displayChar (mappings base)
    \<and> map inputChar (mappings adv) = map inputChar (mappings base)
    \<and> map isKanji (mappings adv) = map isKanji (mappings base)
    \<and> map kanjiWord (mappings adv) = map kanjiWord (mappings base)
    \<and> (\<forall>k < length (mappings base).
          mappings adv ! k =
            (if isKanji (mappings base ! k)
             then (mappings base ! k)\<lparr>readingVariations := Some (variationsAt (gen disp inp) k)\<rparr>
             else mappings base ! k))"
  unfolding Let_def createAdvancedTextMapping_def
  by (simp add: map_attachVariations [OF attachVariations_fields(1)]
      map_attachVariations [OF attachVariations_fields(2)]
      map_attachVariations [OF attachVariations_fields(3)]
      map_attachVariations [OF attachVariations_fields(4)]
      map_attachVariations [OF attachVariations_fields(5)]
      map_attachVariations [OF attachVariations_fields(6)]
      nth_enumerate_eq attachVariations_def)

theorem advanced_keeps_base_witness:
  "0 < length (mappings hiMapping)
   \<and> mappings (createAdvancedTextMapping sampleLookup sampleVariations [kj_hi] [hg_hi]) ! 0 =
       \<lparr>displayIndex = 0, inputIndex = 0, displayChar = [kj_hi], inputChar = Some [hg_hi],
        isKanji = True, kanjiWord = Some [kj_hi], readingVariations = Some [[hg_ka]]\<rparr>
   \<and> map inputIndex (mappings (createAdvancedTextMapping sampleLookup sampleVariations [kj_hi] [hg_hi]))
       = [0]"
  using advanced_keeps_base [of sampleLookup "[kj_hi]" "[hg_hi]" sampleVariations]
  by (simp add: Let_def hiMapping_eval variationsAt_def List.map_filter_def charAt_def
      sampleVariations_def)

text \<open>
  \<^bold>\<open>C9\<close>.  In the mapping built by \<^verbatim>\<open>createTextMapping\<close> the \<open>displayIndex\<close> values never
  decrease along the sequence, and entries with the same \<open>displayIndex\<close> have the same
  \<open>kanjiWord\<close>; the entries pushed for the kana of one kanji reading (the inner loop
  \<open>kanaEntries\<close>) all have that kanji's \<open>displayIndex\<close> and the same \<open>kanjiWord\<close>.
\<close>

theorem displayIndex_monotone:
  "sorted (map displayIndex (mappings (createTextMapping L disp inp)))
   \<and> (\<forall>e1\<in>set (mappings (createTextMapping L disp inp)).
       \<forall>e2\<in>set (mappings (createTextMapping L disp inp)).
         displayIndex e1 = displayIndex e2 \<longrightarrow> kanjiWord e1 = kanjiWord e2)
   \<and> (\<forall>e\<in>set (kanaEntries inp dIdx dChar word cur n).
         displayIndex e = dIdx \<and> kanjiWord e = word)"
proof (intro conjI)
  have inv: "loopInv disp 0 0 (mappings (createTextMapping L disp inp))"
    by (rule createTextMapping_inv)
  then show "sorted (map displayIndex (mappings (createTextMapping L disp inp)))"
    by (simp add: loopInv_def ordered_sorted_displayIndex)
  from inv show "\<forall>e1\<in>set (mappings (createTextMapping L disp inp)).
       \<forall>e2\<in>set (mappings (createTextMapping L disp inp)).
         displayIndex e1 = displayIndex e2 \<longrightarrow> kanjiWord e1 = kanjiWord e2"
    unfolding loopInv_def by blast
  show "\<forall>e\<in>set (kanaEntries inp dIdx dChar word cur n).
         displayIndex e = dIdx \<and> kanjiWord e = word"
    using kanaEntries_mem by blast
qed

theorem displayIndex_monotone_witness:
  "sorted (map displayIndex (mappings daigakuseiMapping))
   \<and> map displayIndex (mappings daigakuseiMapping) = [0, 0, 1, 1, 2, 2]
   \<and> list_all (\<lambda>e. kanjiWord e = Some [kj_dai, kj_gaku, kj_sei]) (mappings daigakuseiMapping)
   \<and> list_all (\<lambda>e. displayIndex e = 0 \<and> kanjiWord e = Some [kj_dai, kj_gaku, kj_sei])
        (kanaEntries [hg_da, hg_i, hg_ga, hg_ku, hg_se, hg_i] 0 [kj_dai]
           (Some [kj_dai, kj_gaku, kj_sei]) 0 2)
   \<and> length (kanaEntries [hg_da, hg_i, hg_ga, hg_ku, hg_se, hg_i] 0 [kj_dai]
           (Some [kj_dai, kj_gaku, kj_sei]) 0 2) = 2"
proof -
  have len: "length (kanaEntries [hg_da, hg_i, hg_ga, hg_ku, hg_se, hg_i] 0 [kj_dai]
           (Some [kj_dai, kj_gaku, kj_sei]) 0 2) = 2"
    by (simp add: kanaEntries_def upt_conv_Cons)
  from displayIndex_monotone [of sampleLookup "[kj_dai, kj_gaku, kj_sei]"
      "[hg_da, hg_i, hg_ga, hg_ku, hg_se, hg_i]" 0 "[kj_dai]" "Some [kj_dai, kj_gaku, kj_sei]" 0 2]
  have "sorted (map displayIndex (mappings daigakuseiMapping))"
    and "list_all (\<lambda>e. displayIndex e = 0 \<and> kanjiWord e = Some [kj_dai, kj_gaku, kj_sei])
        (kanaEntries [hg_da, hg_i, hg_ga, hg_ku, hg_se, hg_i] 0 [kj_dai]
           (Some [kj_dai, kj_gaku, kj_sei]) 0 2)"
    by (simp_all add: list_all_iff)
  with len show ?thesis by (simp add: daigakuseiMapping_eval)
qed

text \<open>
  \<^bold>\<open>C10\<close>.  \<open>totalInputLength\<close> is the length of the input text whatever the number of
  entries; for a display text of one non-kanji character and an input text of at least two
  characters the mapping has one entry, fewer than \<open>totalInputLength\<close>.
  \<^verbatim>\<open>validateInputAtPosition\<close> returns the all-false result with no possible characters
  exactly at the positions at or past \<^verbatim>\<open>mappings.length\<close> (whatever \<open>totalInputLength\<close>
  is), and there \<^verbatim>\<open>getTargetCharAtPosition\<close> returns the empty string.
\<close>

theorem total_length_vs_entries:
  "totalInputLength (createTextMapping L disp inp) = length inp
   \<and> (\<not> isKanjiFn L [c] \<and> 2 \<le> length inp \<longrightarrow>
        length (mappings (createTextMapping L [c] inp)) = 1 \<and>
        length (mappings (createTextMapping L [c] inp)) < totalInputLength (createTextMapping L [c] inp))
   \<and> (validateInputAtPosition G V m u p =
          \<lparr>isValid = False, isComplete = False, canContinue = False, possibleChars = []\<rparr>)
       = (length (mappings m) \<le> p)
   \<and> (length (mappings m) \<le> p \<longrightarrow> getTargetCharAtPosition m p = [])"
proof (intro conjI)
  show "(validateInputAtPosition G V m u p =
          \<lparr>isValid = False, isComplete = False, canContinue = False, possibleChars = []\<rparr>)
       = (length (mappings m) \<le> p)"
  proof
    assume eq: "validateInputAtPosition G V m u p =
          \<lparr>isValid = False, isComplete = False, canContinue = False, possibleChars = []\<rparr>"
    show "length (mappings m) \<le> p"
    proof (rule ccontr)
      assume "\<not> length (mappings m) \<le> p"
      then have "p < length (mappings m)" by simp
      from target_in_possibleChars [OF this, of G V u] eq show False by simp
    qed
  next
    assume "length (mappings m) \<le> p"
    then show "validateInputAtPosition G V m u p =
          \<lparr>isValid = False, isComplete = False, canContinue = False, possibleChars = []\<rparr>"
      by (simp add: validateInputAtPosition_def)
  qed
  show "length (mappings m) \<le> p \<longrightarrow> getTargetCharAtPosition m p = []"
    by (simp add: getTargetCharAtPosition_def)
  show "totalInputLength (createTextMapping L disp inp) = length inp"
    by (simp add: createTextMapping_def)
  show "\<not> isKanjiFn L [c] \<and> 2 \<le> length inp \<longrightarrow>
        length (mappings (createTextMapping L [c] inp)) = 1 \<and>
        length (mappings (createTextMapping L [c] inp)) < totalInputLength (createTextMapping L [c] inp)"
  proof
    assume a: "\<not> isKanjiFn L [c] \<and> 2 \<le> length inp"
    have st: "alignStep L [c] inp 0 0 =
       ([\<lparr>displayIndex = 0, inputIndex = 0, displayChar = [c], inputChar = charAt inp 0,
          isKanji = False, kanjiWord = None, readingVariations = None\<rparr>], 1, 1)"
      using a by (simp add: alignStep_def probeCompound.simps singleStep_def Let_def)
    have "alignLoop L [c] inp 0 0 [] = alignLoop L [c] inp 1 1
            ([] @ [\<lparr>displayIndex = 0, inputIndex = 0, displayChar = [c], inputChar = charAt inp 0,
          isKanji = False, kanjiWord = None, readingVariations = None\<rparr>])"
      using a by (intro alignLoop_unfold st) auto
    also have "\<dots> = [] @ [\<lparr>displayIndex = 0, inputIndex = 0, displayChar = [c], inputChar = charAt inp 0,
          isKanji = False, kanjiWord = None, readingVariations = None\<rparr>]"
      by (rule alignLoop_stop) simp
    finally have one: "length (mappings (createTextMapping L [c] inp)) = 1"
      by (simp add: createTextMapping_def)
    then show "length (mappings (createTextMapping L [c] inp)) = 1 \<and>
        length (mappings (createTextMapping L [c] inp)) < totalInputLength (createTextMapping L [c] inp)"
      using a by (simp add: createTextMapping_def)
  qed
qed

theorem total_length_vs_entries_witness:
  "\<not> isKanjiFn sampleLookup [hg_no] \<and> 2 \<le> length [hg_no, hg_ki]
   \<and> length (mappings noKiMapping) = 1
   \<and> totalInputLength noKiMapping = 2
   \<and> length (mappings noKiMapping) \<le> 1
   \<and> validateInputAtPosition noReadings exactValidator noKiMapping [hg_ki] 1 =
       \<lparr>isValid = False, isComplete = False, canContinue = False, possibleChars = []\<rparr>
   \<and> getTargetCharAtPosition noKiMapping 1 = []"
proof -
  have k: "\<not> isKanjiFn sampleLookup [hg_no]" by (simp add: sampleLookup_def)
  have n: "length (mappings noKiMapping) \<le> 1" by (simp add: noKiMapping_eval)
  from total_length_vs_entries [of sampleLookup "[hg_no]" "[hg_no, hg_ki]" hg_no
      noReadings exactValidator noKiMapping "[hg_ki]" 1] k n
  show ?thesis by simp
qed

section \<open>Claims about \<^verbatim>\<open>splitTextForDisplay\<close>\<close>

lemma split_partition_generic:
  assumes "entriesInDisplay m"
  shows "splitPartitions m p"
proof (cases "List.find (\<lambda>e. inputIndex e = p) (mappings m)")
  case None
  then show ?thesis by (simp add: splitPartitions_def splitTextForDisplay_def)
next
  case (Some e)
  then have "e \<in> set (mappings m)" by (auto simp: find_Some_iff)
  with assms have e: "displayIndex e < length (displayText m)"
    "displayChar e = [displayText m ! displayIndex e]" by (auto simp: entriesInDisplay_def)
  from e(1) have "take (displayIndex e) (displayText m) @ [displayText m ! displayIndex e]
        @ drop (Suc (displayIndex e)) (displayText m) = displayText m"
    by (simp add: id_take_nth_drop [symmetric])
  with Some e show ?thesis
    by (auto simp: splitPartitions_def splitTextForDisplay_def Let_def substring_def
        substringFrom_def take_Suc_conv_app_nth)
qed

lemma createTextMapping_display: "entriesInDisplay (createTextMapping L disp inp)"
  using createTextMapping_inv [of disp L inp]
  by (auto simp: entriesInDisplay_def loopInv_def createTextMapping_def)

lemma createAdvancedTextMapping_display:
  "entriesInDisplay (createAdvancedTextMapping L gen disp inp)"
  unfolding entriesInDisplay_def
proof
  fix e
  assume "e \<in> set (mappings (createAdvancedTextMapping L gen disp inp))"
  then obtain q where q: "q \<in> set (enumerate 0 (mappings (createTextMapping L disp inp)))"
    and e: "e = attachVariations (gen disp inp) q"
    by (auto simp: createAdvancedTextMapping_def Let_def)
  from q have "snd q \<in> set (mappings (createTextMapping L disp inp))"
    by (auto simp: in_set_enumerate_eq) (metis nth_mem)
  with createTextMapping_display [of L disp inp] e
  show "displayIndex e < length (displayText (createAdvancedTextMapping L gen disp inp)) \<and>
     displayChar e = [displayText (createAdvancedTextMapping L gen disp inp) ! displayIndex e]"
    by (simp add: entriesInDisplay_def attachVariations_fields createAdvancedTextMapping_def
        Let_def)
qed

text \<open>
  \<^bold>\<open>C5\<close>.  For every mapping whose entries point into its display text and carry the
  character they point at, and every input position, the three strings returned by
  \<^verbatim>\<open>splitTextForDisplay\<close> partition the display text in the sense of \<open>splitPartitions\<close>.
  Every mapping built by \<^verbatim>\<open>createTextMapping\<close> or \<^verbatim>\<open>createAdvancedTextMapping\<close> is of
  this kind, so the three strings partition the display text for each of them.
\<close>

theorem split_partitions:
  "(entriesInDisplay m \<longrightarrow> splitPartitions m p)
   \<and> entriesInDisplay (createTextMapping L disp inp)
   \<and> splitPartitions (createTextMapping L disp inp) p
   \<and> entriesInDisplay (createAdvancedTextMapping L gen disp inp)
   \<and> splitPartitions (createAdvancedTextMapping L gen disp inp) p"
  by (simp add: split_partition_generic createTextMapping_display
      createAdvancedTextMapping_display)

theorem split_partitions_witness:
  "entriesInDisplay yamaNoMapping
   \<and> splitPartitions yamaNoMapping 1
   \<and> List.find (\<lambda>e. inputIndex e = 1) (mappings yamaNoMapping) \<noteq> None
   \<and> splitPartitions yamaNoMapping 3
   \<and> List.find (\<lambda>e. inputIndex e = 3) (mappings yamaNoMapping) = None"
proof -
  have w: "entriesInDisplay yamaNoMapping"
    by (simp add: entriesInDisplay_def yamaNoMapping_eval)
  from split_partitions [of yamaNoMapping 1 sampleLookup "[kj_yama, hg_no]"
      "[hg_ya, hg_ma, hg_no]" sampleVariations]
    split_partitions [of yamaNoMapping 3 sampleLookup "[kj_yama, hg_no]"
      "[hg_ya, hg_ma, hg_no]" sampleVariations] w
  show ?thesis by (simp add: yamaNoMapping_eval)
qed




end
